theory Spec2Isabelle
  imports Main
begin

section \<open>JavaScript primitives used by the protocol code\<close>

text \<open>
  A JavaScript string is modelled as a \<open>string\<close> (a list of characters); \<open>charCodeAt\<close> is
  \<open>of_char\<close>. The wire format is documented as ASCII, and characters here range over
  0..255. The number-valued results of \<open>parseInt\<close> are \<open>int option\<close>, with \<open>None\<close> for
  \<open>NaN\<close>; all numbers that occur (at most 13 decimal digits) are exact in a double.
\<close>

text \<open>\<open>Number.prototype.toString()\<close> on a non-negative integer: its decimal digits.\<close>

definition digit_char :: "nat \<Rightarrow> char" where
  "digit_char d = ''0123456789'' ! d"

function toString :: "nat \<Rightarrow> string" where
  "toString n = (if n < 10 then [digit_char n] else toString (n div 10) @ [digit_char (n mod 10)])"
  by pat_completeness auto
termination
  by (relation "measure (\<lambda>n. n)") auto

declare toString.simps [simp del]

text \<open>\<open>s.padStart(n, c)\<close> for a one-character filler \<open>c\<close>.\<close>

definition padStart :: "nat \<Rightarrow> char \<Rightarrow> string \<Rightarrow> string" where
  "padStart n c s = replicate (n - length s) c @ s"

text \<open>
  \<open>ToIntegerOrInfinity\<close> on an index argument: \<open>NaN\<close> becomes 0.
\<close>

definition toInteger :: "int option \<Rightarrow> int" where
  "toInteger x = (case x of None \<Rightarrow> 0 | Some i \<Rightarrow> i)"

text \<open>
  \<open>s.substring(start, end)\<close>: both indices are clamped to \<open>[0, s.length]\<close> and swapped
  when \<open>start > end\<close>. \<open>s.substring(start)\<close> takes \<open>end = s.length\<close>.
\<close>

definition substring :: "string \<Rightarrow> int option \<Rightarrow> int option \<Rightarrow> string" where
  "substring s start end' =
     (let len = int (length s);
          finalStart = min (max (toInteger start) 0) len;
          finalEnd = min (max (toInteger end') 0) len;
          from = min finalStart finalEnd;
          to = max finalStart finalEnd
      in take (nat (to - from)) (drop (nat from) s))"

definition substring_from :: "string \<Rightarrow> int option \<Rightarrow> string" where
  "substring_from s start = substring s start (Some (int (length s)))"

text \<open>\<open>24 + length\<close> where \<open>length\<close> may be \<open>NaN\<close>.\<close>

definition js_plus :: "int \<Rightarrow> int option \<Rightarrow> int option" where
  "js_plus a x = map_option (\<lambda>i. a + i) x"

text \<open>
  White space and line terminators as \<open>parseInt\<close> and \<open>trim\<close> skip them (the code units
  below 256: TAB, LF, VT, FF, CR, SP, NBSP).
\<close>

definition is_ws :: "char \<Rightarrow> bool" where
  "is_ws c = ((of_char c :: nat) \<in> {9, 10, 11, 12, 13, 32, 160})"

definition is_digit :: "char \<Rightarrow> bool" where
  "is_digit c = (48 \<le> (of_char c :: nat) \<and> (of_char c :: nat) \<le> 57)"

definition digit_val :: "nat \<Rightarrow> char \<Rightarrow> nat option" where
  "digit_val radix c =
     (let k = (of_char c :: nat);
          v = (if 48 \<le> k \<and> k \<le> 57 then Some (k - 48)
               else if 97 \<le> k \<and> k \<le> 122 then Some (k - 87)
               else if 65 \<le> k \<and> k \<le> 90 then Some (k - 55)
               else None)
      in case v of None \<Rightarrow> None | Some d \<Rightarrow> if d < radix then Some d else None)"

definition radix_val :: "nat \<Rightarrow> string \<Rightarrow> nat" where
  "radix_val radix z = foldl (\<lambda>a c. a * radix + the (digit_val radix c)) 0 z"

text \<open>
  \<open>parseInt(s)\<close> with no radix argument: skip leading white space, read an optional sign,
  strip a \<open>0x\<close>/\<open>0X\<close> prefix (radix 16, else radix 10), read the longest prefix of digits;
  \<open>NaN\<close> when that prefix is empty.
\<close>

definition parseInt :: "string \<Rightarrow> int option" where
  "parseInt s =
     (let s1 = dropWhile is_ws s;
          sign = (case s1 of c # r \<Rightarrow> if c = CHR ''-'' then (-1::int) else 1 | [] \<Rightarrow> 1);
          s2 = (case s1 of c # r \<Rightarrow> if c = CHR ''-'' \<or> c = CHR ''+'' then r else s1 | [] \<Rightarrow> s1);
          hex = (case s2 of a # b # r \<Rightarrow> a = CHR ''0'' \<and> (b = CHR ''x'' \<or> b = CHR ''X'') | _ \<Rightarrow> False);
          radix = (if hex then 16 else 10);
          s3 = (if hex then drop 2 s2 else s2);
          z = takeWhile (\<lambda>c. digit_val radix c \<noteq> None) s3
      in if z = [] then None else Some (sign * int (radix_val radix z)))"

text \<open>\<open>s.trim()\<close> and \<open>s.split('\n')\<close>.\<close>

definition trim :: "string \<Rightarrow> string" where
  "trim s = rev (dropWhile is_ws (rev (dropWhile is_ws s)))"

fun split_nl :: "string \<Rightarrow> string list" where
  "split_nl [] = [[]]"
| "split_nl (c # cs) =
     (if c = CHR 0x0A then [] # split_nl cs
      else (case split_nl cs of p # ps \<Rightarrow> (c # p) # ps | [] \<Rightarrow> [[c]]))"

section \<open>JSON values\<close>

text \<open>
  Payloads are JSON values. \<open>JSON.stringify\<close> and \<open>JSON.parse\<close> belong to the platform, not
  to the repository; the protocol functions take them as the two fields of a \<open>json_lib\<close>.
  \<open>parse\<close> returns \<open>None\<close> where \<open>JSON.parse\<close> throws a \<open>SyntaxError\<close>.
\<close>

datatype json =
    JNull
  | JBool bool
  | JNum int
  | JStr string
  | JArr "json list"
  | JObj "(string \<times> json) list"

record json_lib =
  stringify :: "json \<Rightarrow> string"
  parse :: "string \<Rightarrow> json option"

section \<open>Frame codec (\<open>WMSProtocol.createMessage\<close>, \<open>parseMessage\<close>, \<open>calculateChecksum\<close>)\<close>

definition MESSAGE_TYPES :: "string list" where
  "MESSAGE_TYPES = [''PKG_RCV'', ''PKG_STR'', ''PKG_PCK'', ''PKG_LDD'', ''STS_REQ'',
                    ''STS_RSP'', ''HBT_CHK'', ''ERR_MSG'', ''ACK_MSG'']"

text \<open>The loop \<open>sum += data.charCodeAt(i)\<close>.\<close>

definition char_sum :: "string \<Rightarrow> nat" where
  "char_sum data = foldl (\<lambda>sum c. sum + of_char c) 0 data"

definition calculateChecksum :: "string \<Rightarrow> string" where
  "calculateChecksum data = padStart 2 CHR ''0'' (toString (char_sum data mod 100))"

text \<open>\<open>createMessage(type, payload)\<close>; \<open>now\<close> is the reading of \<open>Date.now()\<close>.\<close>

definition createMessage :: "json_lib \<Rightarrow> nat \<Rightarrow> string \<Rightarrow> json \<Rightarrow> string" where
  "createMessage J now type payload =
     (let jsonPayload = stringify J payload;
          timestamp = toString now;
          length' = padStart 4 CHR ''0'' (toString (length jsonPayload));
          checksum = calculateChecksum (type @ length' @ timestamp @ jsonPayload)
      in type @ length' @ timestamp @ jsonPayload @ checksum)"

text \<open>
  \<open>parseMessage\<close> returns \<open>null\<close> on three paths, told apart here by what is logged: nothing
  for a message shorter than 26 characters, ``Invalid checksum in message'' for a checksum
  mismatch, ``Error parsing message'' when \<open>JSON.parse\<close> throws.
\<close>

datatype parse_failure = TooShort | InvalidChecksum | ParseError

record message =
  m_type :: string
  m_timestamp :: "int option"
  m_payload :: json
  m_raw :: string

definition parseMessage :: "json_lib \<Rightarrow> string \<Rightarrow> parse_failure + message" where
  "parseMessage J rawMessage =
     (if length rawMessage < 26 then Inl TooShort
      else
        let type = substring rawMessage (Some 0) (Some 7);
            lengthStr = substring rawMessage (Some 7) (Some 11);
            length' = parseInt lengthStr;
            timestampStr = substring rawMessage (Some 11) (Some 24);
            payload = substring rawMessage (Some 24) (js_plus 24 length');
            checksum = substring_from rawMessage (js_plus 24 length');
            expectedChecksum = calculateChecksum (type @ lengthStr @ timestampStr @ payload)
        in if checksum \<noteq> expectedChecksum then Inl InvalidChecksum
           else (case parse J payload of
                   None \<Rightarrow> Inl ParseError
                 | Some v \<Rightarrow> Inr \<lparr>m_type = type, m_timestamp = parseInt timestampStr,
                                 m_payload = v, m_raw = rawMessage\<rparr>))"


section \<open>Broadcast hub (\<open>WMSProtocol.sendToClient\<close>, \<open>broadcast\<close>, \<open>handleClientData\<close>)\<close>

text \<open>
  A client socket is identified by a number. \<open>clients\<close> is the \<open>Set\<close> of registered sockets
  in insertion order, \<open>wire c\<close> lists the strings passed to \<open>c.write\<close> so far, \<open>failing\<close> holds
  the sockets whose \<open>write\<close> throws, and \<open>emitted\<close> lists the \<open>'message'\<close> events emitted
  (the socket and the parsed message). A handler call reads the clock once (\<open>now\<close>).
\<close>

type_synonym client = nat

record hub =
  clients :: "client list"
  wire :: "client \<Rightarrow> string list"
  failing :: "client set"
  emitted :: "(client \<times> message) list"

text \<open>The \<open>try { client.write(message + '\n') } catch { this.clients.delete(client) }\<close> block.\<close>

definition write_or_delete :: "string \<Rightarrow> hub \<Rightarrow> client \<Rightarrow> hub" where
  "write_or_delete message h client =
     (if client \<in> failing h then h\<lparr>clients := removeAll client (clients h)\<rparr>
      else h\<lparr>wire := (wire h)(client := wire h client @ [message @ [CHR 0x0A]])\<rparr>)"

definition sendToClient :: "json_lib \<Rightarrow> nat \<Rightarrow> hub \<Rightarrow> client \<Rightarrow> string \<Rightarrow> json \<Rightarrow> hub" where
  "sendToClient J now h client type payload =
     write_or_delete (createMessage J now type payload) h client"

definition broadcast :: "json_lib \<Rightarrow> nat \<Rightarrow> hub \<Rightarrow> string \<Rightarrow> json \<Rightarrow> hub" where
  "broadcast J now h type payload =
     foldl (write_or_delete (createMessage J now type payload)) h (clients h)"

text \<open>The body of \<open>messages.forEach(messageStr => ...)\<close> in \<open>handleClientData\<close>.\<close>

definition handleMessageStr :: "json_lib \<Rightarrow> nat \<Rightarrow> client \<Rightarrow> hub \<Rightarrow> string \<Rightarrow> hub" where
  "handleMessageStr J now client h messageStr =
     (if messageStr = [] then h
      else case parseMessage J messageStr of
             Inl _ \<Rightarrow>
               sendToClient J now h client ''ERR_MSG''
                 (JObj [(''error'', JStr ''Invalid message format''), (''timestamp'', JNum (int now))])
           | Inr message \<Rightarrow>
               (let h1 = sendToClient J now h client ''ACK_MSG''
                           (JObj [(''originalType'', JStr (m_type message)),
                                  (''timestamp'', JNum (int now))])
                in h1\<lparr>emitted := emitted h1 @ [(client, message)]\<rparr>))"

definition handleClientData :: "json_lib \<Rightarrow> nat \<Rightarrow> hub \<Rightarrow> client \<Rightarrow> string \<Rightarrow> hub" where
  "handleClientData J now h client data =
     (let messages = split_nl (trim data)
      in foldl (handleMessageStr J now client) h messages)"

section \<open>Package model (\<open>Package\<close>, \<open>PackageManager\<close>)\<close>

text \<open>
  Times (\<open>new Date()\<close> and its ISO rendering) are kept as the clock reading in milliseconds,
  and an operation reads the clock once (\<open>now\<close>). A value that may be \<open>null\<close> or
  \<open>undefined\<close> is an \<open>option\<close>; \<open>truthy\<close> is JavaScript's truth test on such a string.
\<close>

definition truthy :: "string option \<Rightarrow> bool" where
  "truthy x = (case x of None \<Rightarrow> False | Some s \<Rightarrow> s \<noteq> [])"

record event =
  eventType :: string
  description :: string
  timestamp :: nat
  eventLocation :: "string option"

record package =
  packageId :: string
  clientId :: string
  orderId :: "string option"
  items :: "string list"
  deliveryAddress :: "string option"
  status :: string
  location :: "string option"
  assignedVehicle :: "string option"
  events :: "event list"
  createdAt :: nat
  updatedAt :: nat

definition addEvent :: "nat \<Rightarrow> string \<Rightarrow> string \<Rightarrow> package \<Rightarrow> package" where
  "addEvent now eventType' description' pkg =
     pkg\<lparr>events := events pkg @
            [\<lparr>eventType = eventType', description = description', timestamp = now,
              eventLocation = location pkg\<rparr>]\<rparr>"

text \<open>The constructor \<open>new Package(packageId, clientId, orderId, items, deliveryAddress)\<close>.\<close>

definition new_Package ::
  "nat \<Rightarrow> string \<Rightarrow> string \<Rightarrow> string option \<Rightarrow> string list \<Rightarrow> string option \<Rightarrow> package" where
  "new_Package now packageId' clientId' orderId' items' deliveryAddress' =
     addEvent now ''received'' ''Package received from client''
       \<lparr>packageId = packageId', clientId = clientId', orderId = orderId', items = items',
        deliveryAddress = deliveryAddress', status = ''received'', location = None,
        assignedVehicle = None, events = [], createdAt = now, updatedAt = now\<rparr>"

definition validStatuses :: "string list" where
  "validStatuses = [''received'', ''stored'', ''picked'', ''loaded'']"

fun join :: "string \<Rightarrow> string list \<Rightarrow> string" where
  "join sep [] = []"
| "join sep [x] = x"
| "join sep (x # y # ys) = x @ sep @ join sep (y # ys)"

text \<open>\<open>Package.updateStatus\<close>; \<open>Inl\<close> carries the message of the thrown \<open>Error\<close>.\<close>

definition updateStatus ::
  "nat \<Rightarrow> string \<Rightarrow> string option \<Rightarrow> string option \<Rightarrow> package \<Rightarrow> string + package" where
  "updateStatus now newStatus location' description' pkg =
     (if newStatus \<notin> set validStatuses
      then Inl (''Invalid status: '' @ newStatus @ ''. Valid statuses: '' @ join '', '' validStatuses)
      else
        let pkg1 = pkg\<lparr>status := newStatus\<rparr>;
            pkg2 = (if truthy location' then pkg1\<lparr>location := location'\<rparr> else pkg1);
            pkg3 = pkg2\<lparr>updatedAt := now\<rparr>
        in Inr (addEvent now newStatus
                  (if truthy description' then the description'
                   else ''Package status updated to '' @ newStatus) pkg3))"

definition assignToVehicle :: "nat \<Rightarrow> string \<Rightarrow> package \<Rightarrow> string + package" where
  "assignToVehicle now vehicleId pkg =
     updateStatus now ''loaded'' None (Some (''Package loaded onto vehicle '' @ vehicleId))
       (pkg\<lparr>assignedVehicle := Some vehicleId\<rparr>)"

text \<open>
  \<open>PackageManager\<close>: the \<open>packages\<close> map and, for \<open>emitEvent\<close>, the list of emitted events
  with the package as it was handed to the handlers. The handlers that \<open>WMSHandler\<close>
  registers only log and broadcast; they do not touch the packages.
\<close>

record manager =
  packages :: "string \<rightharpoonup> package"
  emittedEvents :: "(string \<times> package) list"

definition emitEvent :: "string \<Rightarrow> package \<Rightarrow> manager \<Rightarrow> manager" where
  "emitEvent eventType' data m = m\<lparr>emittedEvents := emittedEvents m @ [(eventType', data)]\<rparr>"

definition addPackage :: "package \<Rightarrow> manager \<Rightarrow> manager" where
  "addPackage pkg m = emitEvent ''package_received'' pkg (m\<lparr>packages := (packages m)(packageId pkg \<mapsto> pkg)\<rparr>)"

definition getPackage :: "manager \<Rightarrow> string \<Rightarrow> package option" where
  "getPackage m packageId' = packages m packageId'"

text \<open>
  \<open>updatePackageStatus\<close> and \<open>assignPackageToVehicle\<close> return \<open>null\<close> for an unknown package
  (\<open>Inr None\<close>), the updated package otherwise; \<open>Inl\<close> is the error thrown by
  \<open>updateStatus\<close>.
\<close>

definition updatePackageStatus ::
  "nat \<Rightarrow> string \<Rightarrow> string \<Rightarrow> string option \<Rightarrow> string option \<Rightarrow> manager
     \<Rightarrow> string + (package option \<times> manager)" where
  "updatePackageStatus now packageId' newStatus location' description' m =
     (case getPackage m packageId' of
        None \<Rightarrow> Inr (None, m)
      | Some pkg \<Rightarrow>
          (case updateStatus now newStatus location' description' pkg of
             Inl e \<Rightarrow> Inl e
           | Inr pkg' \<Rightarrow>
               Inr (Some pkg',
                    emitEvent ''package_updated'' pkg'
                      (m\<lparr>packages := (packages m)(packageId' \<mapsto> pkg')\<rparr>))))"

definition assignPackageToVehicle ::
  "nat \<Rightarrow> string \<Rightarrow> string \<Rightarrow> manager \<Rightarrow> string + (package option \<times> manager)" where
  "assignPackageToVehicle now packageId' vehicleId m =
     (case getPackage m packageId' of
        None \<Rightarrow> Inr (None, m)
      | Some pkg \<Rightarrow>
          (case assignToVehicle now vehicleId pkg of
             Inl e \<Rightarrow> Inl e
           | Inr pkg' \<Rightarrow>
               Inr (Some pkg',
                    emitEvent ''package_loaded'' pkg'
                      (m\<lparr>packages := (packages m)(packageId' \<mapsto> pkg')\<rparr>))))"


section \<open>Lifecycle engine (\<open>WMSHandler\<close>)\<close>

text \<open>
  The handler methods are \<open>async\<close>: \<open>Inl\<close> is the message of the \<open>Error\<close> the returned
  promise rejects with, \<open>Inr\<close> the resolved response object together with the package
  manager after the call. \<open>wh\<close> is \<open>warehouseConfig.defaultLocation.name\<close>.
\<close>

record packageData =
  pd_packageId :: "string option"
  pd_clientId :: "string option"
  pd_orderId :: "string option"
  pd_items :: "string list option"
  pd_deliveryAddress :: "string option"

definition receivePackage ::
  "string \<Rightarrow> nat \<Rightarrow> packageData \<Rightarrow> manager \<Rightarrow> string + (json \<times> manager)" where
  "receivePackage wh now d m =
     (if \<not> truthy (pd_packageId d) \<or> \<not> truthy (pd_clientId d)
      then Inl ''Package ID and Client ID are required''
      else
        let pkg = new_Package now (the (pd_packageId d)) (the (pd_clientId d)) (pd_orderId d)
                    (case pd_items d of None \<Rightarrow> [] | Some xs \<Rightarrow> xs) (pd_deliveryAddress d);
            m' = addPackage pkg m
        in Inr (JObj [(''status'', JStr ''received''),
                      (''packageId'', JStr (packageId pkg)),
                      (''warehouse'', JStr wh),
                      (''receiptTime'', JNum (int (createdAt pkg))),
                      (''nextStep'', JStr ''storage_assignment'')], m'))"

definition storePackage ::
  "string \<Rightarrow> nat \<Rightarrow> string \<Rightarrow> string \<Rightarrow> manager \<Rightarrow> string + (json \<times> manager)" where
  "storePackage wh now packageId' location' m =
     (case updatePackageStatus now packageId' ''stored'' (Some location')
             (Some (''Package stored at '' @ location')) m of
        Inl e \<Rightarrow> Inl e
      | Inr (None, m') \<Rightarrow> Inl (''Package '' @ packageId' @ '' not found'')
      | Inr (Some pkg, m') \<Rightarrow>
          Inr (JObj [(''status'', JStr ''stored''),
                     (''packageId'', JStr packageId'),
                     (''location'', JStr location'),
                     (''warehouse'', JStr wh),
                     (''storageTime'', JNum (int (updatedAt pkg)))], m'))"

definition json_of_option :: "string option \<Rightarrow> json" where
  "json_of_option x = (case x of None \<Rightarrow> JNull | Some s \<Rightarrow> JStr s)"

definition pickPackage ::
  "nat \<Rightarrow> string \<Rightarrow> manager \<Rightarrow> string + (json \<times> manager)" where
  "pickPackage now packageId' m =
     (case getPackage m packageId' of
        None \<Rightarrow> Inl (''Package '' @ packageId' @ '' not found'')
      | Some pkg \<Rightarrow>
          if status pkg \<noteq> ''stored''
          then Inl (''Package '' @ packageId' @ '' is not ready for pickup. Current status: ''
                    @ status pkg @ ''. Expected: stored'')
          else
            (case updatePackageStatus now packageId' ''picked'' None
                    (Some ''Package picked for order fulfillment'') m of
               Inl e \<Rightarrow> Inl e
             | Inr (None, m') \<Rightarrow> Inl ''Cannot read properties of null''
             | Inr (Some updatedPkg, m') \<Rightarrow>
                 Inr (JObj [(''status'', JStr ''picked''),
                            (''packageId'', JStr packageId'),
                            (''location'', json_of_option (location updatedPkg)),
                            (''pickingTime'', JNum (int (updatedAt updatedPkg))),
                            (''nextStep'', JStr ''vehicle_loading'')], m')))"

definition loadPackage ::
  "nat \<Rightarrow> string \<Rightarrow> string \<Rightarrow> manager \<Rightarrow> string + (json \<times> manager)" where
  "loadPackage now packageId' vehicleId m =
     (case assignPackageToVehicle now packageId' vehicleId m of
        Inl e \<Rightarrow> Inl e
      | Inr (None, m') \<Rightarrow> Inl (''Package '' @ packageId' @ '' not found'')
      | Inr (Some pkg, m') \<Rightarrow>
          Inr (JObj [(''status'', JStr ''loaded''),
                     (''packageId'', JStr packageId'),
                     (''vehicleId'', JStr vehicleId),
                     (''loadingTime'', JNum (int (updatedAt pkg))),
                     (''readyForDelivery'', JBool True)], m'))"

text \<open>
  Sequences of engine operations. A rejected operation leaves the manager as it was.
\<close>

datatype operation =
    Receive packageData
  | Store string string
  | Pick string
  | Load string string

definition apply_operation ::
  "string \<Rightarrow> nat \<Rightarrow> operation \<Rightarrow> manager \<Rightarrow> string + (json \<times> manager)" where
  "apply_operation wh now op m =
     (case op of
        Receive d \<Rightarrow> receivePackage wh now d m
      | Store k loc \<Rightarrow> storePackage wh now k loc m
      | Pick k \<Rightarrow> pickPackage now k m
      | Load k v \<Rightarrow> loadPackage now k v m)"

definition after :: "manager \<Rightarrow> string + (json \<times> manager) \<Rightarrow> manager" where
  "after m r = (case r of Inl e \<Rightarrow> m | Inr (resp, m') \<Rightarrow> m')"

text \<open>The operations arrive with their clock readings.\<close>

fun run :: "string \<Rightarrow> (nat \<times> operation) list \<Rightarrow> manager \<Rightarrow> manager" where
  "run wh [] m = m"
| "run wh ((now, op) # ops) m = run wh ops (after m (apply_operation wh now op m))"

definition rank :: "string \<Rightarrow> nat" where
  "rank s = (if s = ''received'' then 0 else if s = ''stored'' then 1
             else if s = ''picked'' then 2 else if s = ''loaded'' then 3 else 4)"

text \<open>The statuses in a package's event history, and whether they never decrease.\<close>

definition history_ranks :: "package \<Rightarrow> nat list" where
  "history_ranks pkg = map (\<lambda>e. rank (eventType e)) (events pkg)"

definition monotone_history :: "package \<Rightarrow> bool" where
  "monotone_history pkg = sorted (history_ranks pkg)"

text \<open>
  Whether a \<open>Store\<close> finds its package (when it exists) in status received or stored, and
  whether every \<open>Store\<close> of a sequence does.
\<close>

definition store_guard :: "operation \<Rightarrow> manager \<Rightarrow> bool" where
  "store_guard op m =
     (case op of
        Store k loc \<Rightarrow>
          (case getPackage m k of
             None \<Rightarrow> True
           | Some pkg \<Rightarrow> status pkg = ''received'' \<or> status pkg = ''stored'')
      | _ \<Rightarrow> True)"

fun stores_in_order :: "string \<Rightarrow> (nat \<times> operation) list \<Rightarrow> manager \<Rightarrow> bool" where
  "stores_in_order wh [] m = True"
| "stores_in_order wh ((now, op) # ops) m =
     (store_guard op m \<and> stores_in_order wh ops (after m (apply_operation wh now op m)))"

declare run.simps [simp del] stores_in_order.simps [simp del]

text \<open>
  What the proof of the history property maintains for every stored package: the history
  is not empty and never decreases, its last event carries the current status, and the
  status is one of the four.
\<close>

definition package_inv :: "package \<Rightarrow> bool" where
  "package_inv pkg =
     (events pkg \<noteq> [] \<and> monotone_history pkg
      \<and> eventType (last (events pkg)) = status pkg
      \<and> status pkg \<in> set validStatuses)"

definition manager_inv :: "manager \<Rightarrow> bool" where
  "manager_inv m = (\<forall>k pkg. packages m k = Some pkg \<longrightarrow> package_inv pkg)"


definition empty_manager :: manager where
  "empty_manager = \<lparr>packages = Map.empty, emittedEvents = []\<rparr>"

section \<open>Correlator (\<open>TCPHTTPAdapter\<close>)\<close>

text \<open>
  \<open>pendingRequests\<close> and \<open>tcpResponses\<close> are the two \<open>Map\<close>s of the adapter, keyed by the
  request id; \<open>sentTCP\<close> lists what was written to the TCP socket and \<open>connected\<close> says
  whether \<open>tcpClient\<close> exists and is not destroyed.
\<close>

record adapter =
  pendingRequests :: "string \<rightharpoonup> nat"
  tcpResponses :: "string \<rightharpoonup> json"
  sentTCP :: "string list"
  connected :: bool

definition sendTCPMessage :: "nat \<Rightarrow> string \<Rightarrow> string option \<Rightarrow> adapter \<Rightarrow> string + adapter" where
  "sendTCPMessage now message' requestId a =
     (if connected a
      then
        let a1 = a\<lparr>sentTCP := sentTCP a @ [message']\<rparr>
        in Inr (if truthy requestId
                then a1\<lparr>pendingRequests := (pendingRequests a1)(the requestId \<mapsto> now)\<rparr>
                else a1)
      else Inl ''TCP connection not available'')"

text \<open>
  \<open>message.payload.requestId\<close>: a \<open>TypeError\<close> on \<open>null\<close>, the property of an object,
  \<open>undefined\<close> on any other value. The keys of a \<open>JObj\<close> are distinct.
\<close>

definition payload_requestId :: "json \<Rightarrow> string + json option" where
  "payload_requestId v =
     (case v of
        JNull \<Rightarrow> Inl ''Cannot read properties of null''
      | JObj props \<Rightarrow> Inr (map_of props ''requestId'')
      | _ \<Rightarrow> Inr None)"

text \<open>
  \<open>handleStatusResponse\<close>. The keys of \<open>pendingRequests\<close> are strings, so \<open>has\<close> is false
  for an id that is not a string.
\<close>

definition handleStatusResponse :: "message \<Rightarrow> adapter \<Rightarrow> string + adapter" where
  "handleStatusResponse message' a =
     (case payload_requestId (m_payload message') of
        Inl e \<Rightarrow> Inl e
      | Inr (Some (JStr requestId)) \<Rightarrow>
          if pendingRequests a requestId \<noteq> None
          then Inr (a\<lparr>pendingRequests := (pendingRequests a)(requestId := None),
                      tcpResponses := (tcpResponses a)(requestId \<mapsto> m_payload message')\<rparr>)
          else Inr a
      | Inr _ \<Rightarrow> Inr a)"

text \<open>
  One run of \<open>checkResponse\<close> inside \<open>waitForTCPResponse(requestId, timeout)\<close> at clock
  reading \<open>now\<close>: the promise is resolved, rejected, or the check is scheduled again.
\<close>

datatype outcome = Resolved json | Rejected string | Rescheduled

definition checkResponse :: "string \<Rightarrow> nat \<Rightarrow> nat \<Rightarrow> nat \<Rightarrow> adapter \<Rightarrow> outcome \<times> adapter" where
  "checkResponse requestId timeout startTime now a =
     (case tcpResponses a requestId of
        Some response \<Rightarrow> (Resolved response, a\<lparr>tcpResponses := (tcpResponses a)(requestId := None)\<rparr>)
      | None \<Rightarrow>
          if int now - int startTime > int timeout
          then (Rejected ''TCP response timeout'',
                a\<lparr>pendingRequests := (pendingRequests a)(requestId := None)\<rparr>)
          else (Rescheduled, a))"


section \<open>A JSON library for the concrete examples\<close>

text \<open>
  The theorems below hold for every \<open>json_lib\<close>. Where a concrete frame is evaluated, the
  library is \<open>JSON\<close>: \<open>stringify_json\<close> writes a value the way \<open>JSON.stringify\<close> does
  (no white space, members in order, control characters escaped), and \<open>parse_json\<close> reads
  JSON text with integer numbers; the first argument of \<open>parse_value\<close> bounds the nesting
  and the number of members.
\<close>

definition hex_char :: "nat \<Rightarrow> char" where
  "hex_char d = ''0123456789abcdef'' ! d"

definition json_escape :: "char \<Rightarrow> string" where
  "json_escape c =
     (if c = CHR 0x22 then [CHR 0x5C, CHR 0x22]
      else if c = CHR 0x5C then [CHR 0x5C, CHR 0x5C]
      else if c = CHR 0x08 then [CHR 0x5C, CHR ''b'']
      else if c = CHR 0x0C then [CHR 0x5C, CHR ''f'']
      else if c = CHR 0x0A then [CHR 0x5C, CHR ''n'']
      else if c = CHR 0x0D then [CHR 0x5C, CHR ''r'']
      else if c = CHR 0x09 then [CHR 0x5C, CHR ''t'']
      else if (of_char c :: nat) < 32
        then [CHR 0x5C, CHR ''u'', CHR ''0'', CHR ''0'', hex_char (of_char c div 16), hex_char (of_char c mod 16)]
      else [c])"

definition json_quote :: "string \<Rightarrow> string" where
  "json_quote s = CHR 0x22 # concat (map json_escape s) @ [CHR 0x22]"

fun stringify_json :: "json \<Rightarrow> string" where
  "stringify_json JNull = ''null''"
| "stringify_json (JBool b) = (if b then ''true'' else ''false'')"
| "stringify_json (JNum i) = (if i < 0 then CHR ''-'' # toString (nat (- i)) else toString (nat i))"
| "stringify_json (JStr s) = json_quote s"
| "stringify_json (JArr xs) = ''['' @ join '','' (map stringify_json xs) @ '']''"
| "stringify_json (JObj ps) =
     ''{'' @ join '','' (map (\<lambda>(k, v). json_quote k @ '':'' @ stringify_json v) ps) @ ''}''"

definition json_ws :: "char \<Rightarrow> bool" where
  "json_ws c = (c = CHR 0x20 \<or> c = CHR 0x09 \<or> c = CHR 0x0A \<or> c = CHR 0x0D)"

definition unescape :: "char \<Rightarrow> char option" where
  "unescape e =
     (if e = CHR 0x22 \<or> e = CHR 0x5C \<or> e = CHR ''/'' then Some e
      else if e = CHR ''b'' then Some (CHR 0x08)
      else if e = CHR ''f'' then Some (CHR 0x0C)
      else if e = CHR ''n'' then Some (CHR 0x0A)
      else if e = CHR ''r'' then Some (CHR 0x0D)
      else if e = CHR ''t'' then Some (CHR 0x09)
      else None)"

definition hex4 :: "string \<Rightarrow> char option" where
  "hex4 h = (if length h = 4 \<and> (\<forall>c \<in> set h. digit_val 16 c \<noteq> None) \<and> radix_val 16 h < 256
             then Some (char_of (radix_val 16 h)) else None)"

fun parse_chars :: "string \<Rightarrow> (string \<times> string) option" where
  "parse_chars [] = None"
| "parse_chars (c # r) =
     (if c = CHR 0x22 then Some ([], r)
      else if c = CHR 0x5C then
        (case r of
           [] \<Rightarrow> None
         | e # r' \<Rightarrow>
             if e = CHR ''u'' then
               (case hex4 (take 4 r') of
                  None \<Rightarrow> None
                | Some ch \<Rightarrow> map_option (apfst ((#) ch)) (parse_chars (drop 4 r')))
             else
               (case unescape e of
                  None \<Rightarrow> None
                | Some ch \<Rightarrow> map_option (apfst ((#) ch)) (parse_chars r')))
      else if (of_char c :: nat) < 32 then None
      else map_option (apfst ((#) c)) (parse_chars r))"

fun parse_value :: "nat \<Rightarrow> string \<Rightarrow> (json \<times> string) option"
  and parse_elements :: "nat \<Rightarrow> string \<Rightarrow> (json list \<times> string) option"
  and parse_members :: "nat \<Rightarrow> string \<Rightarrow> ((string \<times> json) list \<times> string) option" where
  "parse_value 0 s = None"
| "parse_value (Suc n) s =
     (case dropWhile json_ws s of
        [] \<Rightarrow> None
      | c # r \<Rightarrow>
          if c = CHR 0x7B then
            (case dropWhile json_ws r of
               [] \<Rightarrow> None
             | c' # r' \<Rightarrow> if c' = CHR 0x7D then Some (JObj [], r')
                          else map_option (apfst JObj) (parse_members n r))
          else if c = CHR 0x5B then
            (case dropWhile json_ws r of
               [] \<Rightarrow> None
             | c' # r' \<Rightarrow> if c' = CHR 0x5D then Some (JArr [], r')
                          else map_option (apfst JArr) (parse_elements n r))
          else if c = CHR 0x22 then map_option (apfst JStr) (parse_chars r)
          else if take 4 (c # r) = ''null'' then Some (JNull, drop 4 (c # r))
          else if take 4 (c # r) = ''true'' then Some (JBool True, drop 4 (c # r))
          else if take 5 (c # r) = ''false'' then Some (JBool False, drop 5 (c # r))
          else
            (let ds = takeWhile is_digit (if c = CHR ''-'' then r else c # r);
                 rest = dropWhile is_digit (if c = CHR ''-'' then r else c # r)
             in if ds = [] \<or> (hd ds = CHR ''0'' \<and> length ds > 1)
                   \<or> (rest \<noteq> [] \<and> hd rest \<in> {CHR ''.'', CHR ''e'', CHR ''E''})
                then None
                else Some (JNum ((if c = CHR ''-'' then - 1 else 1) * int (radix_val 10 ds)), rest)))"
| "parse_elements 0 s = None"
| "parse_elements (Suc n) s =
     (case parse_value n s of
        None \<Rightarrow> None
      | Some (v, r) \<Rightarrow>
          (case dropWhile json_ws r of
             [] \<Rightarrow> None
           | c # r' \<Rightarrow>
               if c = CHR 0x5D then Some ([v], r')
               else if c = CHR '','' then map_option (apfst ((#) v)) (parse_elements n r')
               else None))"
| "parse_members 0 s = None"
| "parse_members (Suc n) s =
     (case dropWhile json_ws s of
        [] \<Rightarrow> None
      | q # r \<Rightarrow>
          if q \<noteq> CHR 0x22 then None
          else
            (case parse_chars r of
               None \<Rightarrow> None
             | Some (k, r1) \<Rightarrow>
                 (case dropWhile json_ws r1 of
                    [] \<Rightarrow> None
                  | col # r2 \<Rightarrow>
                      if col \<noteq> CHR '':'' then None
                      else
                        (case parse_value n r2 of
                           None \<Rightarrow> None
                         | Some (v, r3) \<Rightarrow>
                             (case dropWhile json_ws r3 of
                                [] \<Rightarrow> None
                              | c # r4 \<Rightarrow>
                                  if c = CHR 0x7D then Some ([(k, v)], r4)
                                  else if c = CHR '','' then
                                    map_option (apfst ((#) (k, v))) (parse_members n r4)
                                  else None)))))"

definition parse_json :: "string \<Rightarrow> json option" where
  "parse_json s =
     (case parse_value (Suc (length s)) s of
        None \<Rightarrow> None
      | Some (v, r) \<Rightarrow> if dropWhile json_ws r = [] then Some v else None)"

definition JSON :: json_lib where
  "JSON = \<lparr>stringify = stringify_json, parse = parse_json\<rparr>"


section \<open>Example values\<close>

text \<open>
  A payload and the frame that \<open>createMessage\<close> builds for it with type \<open>PKG_RCV\<close> at clock
  reading 1757450786892, and a payload whose serialization has 10000 characters.
\<close>

definition example_payload :: json where
  "example_payload = JObj [(''packageId'', JStr ''PKG123''), (''status'', JStr ''received'')]"

definition example_frame :: string where
  \<open>example_frame = ''PKG_RCV00421757450786892{"packageId":"PKG123","status":"received"}07''\<close>

definition oversize_payload :: json where
  "oversize_payload = JObj [(''data'', JStr (replicate 9989 CHR ''a''))]"


text \<open>A hub with two registered sockets and nothing written yet.\<close>

definition example_hub :: hub where
  "example_hub = \<lparr>clients = [1, 2], wire = (\<lambda>c. []), failing = {}, emitted = []\<rparr>"

text \<open>
  The package data of the first scenario, an adapter with no request in flight, and a
  status response.
\<close>

definition example_data :: packageData where
  "example_data = \<lparr>pd_packageId = Some ''PKG001'', pd_clientId = Some ''C1'',
                    pd_orderId = Some ''O1'', pd_items = Some [''a'', ''b''],
                    pd_deliveryAddress = Some ''Addr''\<rparr>"

definition example_adapter :: adapter where
  "example_adapter = \<lparr>pendingRequests = Map.empty, tcpResponses = Map.empty, sentTCP = [],
                        connected = True\<rparr>"

definition example_response :: message where
  "example_response =
     \<lparr>m_type = ''STS_RSP'', m_timestamp = Some 1757450792000,
      m_payload = JObj [(''requestId'', JStr ''status_1757450786892''), (''status'', JStr ''stored'')],
      m_raw = []\<rparr>"

section \<open>Decimal digits, \<open>parseInt\<close> and \<open>substring\<close>\<close>

lemma less_10_cases: "d < 10 \<Longrightarrow> d \<in> {0, 1, 2, 3, 4, 5, 6, 7, 8, 9::nat}"
  by auto

lemma of_char_digit_char: "d < 10 \<Longrightarrow> of_char (digit_char d) = 48 + d"
  by (drule less_10_cases) (auto simp: digit_char_def)

lemma is_digit_digit_char: "d < 10 \<Longrightarrow> is_digit (digit_char d)"
  by (simp add: is_digit_def of_char_digit_char)

lemma digit_val_digit_char: "d < 10 \<Longrightarrow> digit_val 10 (digit_char d) = Some d"
  by (simp add: digit_val_def of_char_digit_char Let_def)

lemma toString_digits: "\<forall>c \<in> set (toString n). is_digit c"
proof (induction n rule: toString.induct)
  case (1 n)
  show ?case
  proof (cases "n < 10")
    case True
    then show ?thesis by (subst toString.simps) (simp add: is_digit_digit_char)
  next
    case False
    with 1 show ?thesis by (subst toString.simps) (simp add: is_digit_digit_char)
  qed
qed

lemma radix_val_snoc: "radix_val r (z @ [c]) = radix_val r z * r + the (digit_val r c)"
  by (simp add: radix_val_def)

lemma radix_val_toString: "radix_val 10 (toString n) = n"
proof (induction n rule: toString.induct)
  case (1 n)
  show ?case
  proof (cases "n < 10")
    case True
    then show ?thesis by (subst toString.simps) (simp add: radix_val_def digit_val_digit_char)
  next
    case False
    with 1 show ?thesis by (subst toString.simps) (simp add: radix_val_snoc digit_val_digit_char)
  qed
qed

lemma length_toString_le: "n < 10 ^ k \<Longrightarrow> 0 < k \<Longrightarrow> length (toString n) \<le> k"
proof (induction n arbitrary: k rule: toString.induct)
  case (1 n)
  show ?case
  proof (cases "n < 10")
    case True
    with 1 show ?thesis by (subst toString.simps) simp
  next
    case False
    then obtain j where k: "k = Suc j" using 1(3) by (cases k) auto
    with False 1(2) have j: "0 < j" by (cases j) auto
    from 1(2) k have "n div 10 < 10 ^ j" by (simp add: less_mult_imp_div_less mult.commute)
    with 1(1)[OF False this j] False k show ?thesis by (subst toString.simps) simp
  qed
qed

lemma length_toString_ge: "10 ^ k \<le> n \<Longrightarrow> k < length (toString n)"
proof (induction n arbitrary: k rule: toString.induct)
  case (1 n)
  show ?case
  proof (cases "n < 10")
    case True
    with 1(2) have "(10::nat) ^ k < 10 ^ 1" by simp
    then have "k = 0" by (simp only: power_strict_increasing_iff)
    with True show ?thesis by (subst toString.simps) simp
  next
    case False
    show ?thesis
    proof (cases k)
      case 0
      then show ?thesis by (subst toString.simps) simp
    next
      case (Suc j)
      with 1(2) have "10 ^ j \<le> n div 10" by (simp add: less_eq_div_iff_mult_less_eq mult.commute)
      with 1(1)[OF False this] False Suc show ?thesis by (subst toString.simps) simp
    qed
  qed
qed


lemma is_digit_not_ws: "is_digit c \<Longrightarrow> \<not> is_ws c"
  by (auto simp: is_digit_def is_ws_def)

lemma is_digit_digit_val: "is_digit c \<Longrightarrow> \<exists>y. digit_val 10 c = Some y"
  by (auto simp: is_digit_def digit_val_def Let_def)

lemma is_digit_neq: "is_digit c \<Longrightarrow> c \<noteq> CHR ''-'' \<and> c \<noteq> CHR ''+'' \<and> c \<noteq> CHR ''x'' \<and> c \<noteq> CHR ''X''"
  by (auto simp: is_digit_def)

lemma parseInt_digits:
  assumes "s \<noteq> []" and "\<forall>c \<in> set s. is_digit c"
  shows "parseInt s = Some (int (radix_val 10 s))"
proof -
  obtain c r where s: "s = c # r" using assms(1) by (cases s) auto
  have c: "is_digit c" using assms(2) s by simp
  have d: "dropWhile is_ws s = s" using c s by (simp add: is_digit_not_ws)
  have nohex: "\<not> (case s of a # b # r \<Rightarrow> a = CHR ''0'' \<and> (b = CHR ''x'' \<or> b = CHR ''X'') | _ \<Rightarrow> False)"
    using assms(2) s by (cases r) (auto dest: is_digit_neq)
  have t: "takeWhile (\<lambda>c. \<exists>y. digit_val 10 c = Some y) s = s"
    using assms(2) by (simp add: takeWhile_eq_all_conv is_digit_digit_val)
  have sg: "(case s of c # r \<Rightarrow> if c = CHR ''-'' then (-1::int) else 1 | [] \<Rightarrow> 1) = 1"
    using c s is_digit_neq by auto
  have s2: "(case s of c # r \<Rightarrow> if c = CHR ''-'' \<or> c = CHR ''+'' then r else s | [] \<Rightarrow> s) = s"
    using c s is_digit_neq by auto
  show ?thesis
    unfolding parseInt_def d Let_def sg s2 using nohex assms(1) by (simp add: t)
qed

lemma radix_val_zeros: "radix_val 10 (replicate k CHR ''0'' @ s) = radix_val 10 s"
proof -
  have z: "foldl (\<lambda>a c. a * 10 + the (digit_val 10 c)) 0 (replicate k CHR ''0'') = 0"
    by (induction k) (simp_all add: digit_val_def)
  show ?thesis by (simp add: radix_val_def z)
qed

lemma substring_nat:
  "i \<le> j \<Longrightarrow> substring s (Some (int i)) (Some (int j)) = take (j - i) (drop i s)"
  by (auto simp: substring_def toInteger_def Let_def min_def max_def nat_diff_distrib')

lemma substring_from_nat:
  "substring_from s (Some (int i)) = drop i s"
  by (auto simp: substring_from_def substring_def toInteger_def Let_def min_def max_def nat_diff_distrib')


lemma length_calculateChecksum: "length (calculateChecksum d) = 2"
proof -
  have "length (toString (char_sum d mod 100)) \<le> 2"
    by (rule length_toString_le) simp_all
  then show ?thesis by (simp add: calculateChecksum_def padStart_def)
qed

lemma toString_nonempty: "toString n \<noteq> []"
  by (subst toString.simps) simp

lemma parseMessage_frame:
  assumes "length t = 7" "length l = 4" "length ts = 13" "2 \<le> length rest"
    and "parseInt l = Some (int k)"
  shows "parseMessage J (t @ l @ ts @ rest) =
     (if drop k rest \<noteq> calculateChecksum (t @ l @ ts @ take k rest) then Inl InvalidChecksum
      else case parse J (take k rest) of
             None \<Rightarrow> Inl ParseError
           | Some v \<Rightarrow> Inr \<lparr>m_type = t, m_timestamp = parseInt ts, m_payload = v,
                           m_raw = t @ l @ ts @ rest\<rparr>)"
proof -
  let ?raw = "t @ l @ ts @ rest"
  have a: "substring ?raw (Some 0) (Some 7) = t"
    using substring_nat[of 0 7 ?raw] assms(1) by simp
  have b: "substring ?raw (Some 7) (Some 11) = l"
    using substring_nat[of 7 11 ?raw] assms(1,2) by simp
  have c: "substring ?raw (Some 11) (Some 24) = ts"
    using substring_nat[of 11 24 ?raw] assms(1,2,3) by simp
  have d: "substring ?raw (Some 24) (js_plus 24 (Some (int k))) = take k rest"
    using substring_nat[of 24 "24 + k" ?raw] assms(1,2,3) by (simp add: js_plus_def)
  have e: "substring_from ?raw (js_plus 24 (Some (int k))) = drop k rest"
    using substring_from_nat[of ?raw "24 + k"] assms(1,2,3) by (simp add: js_plus_def add.commute)
  have len: "\<not> length ?raw < 26" using assms(1-4) by simp
  show ?thesis
    unfolding parseMessage_def Let_def a b c assms(5) d e using len by simp
qed

lemma parseInt_padded:
  assumes "n < 10 ^ k" "0 < k"
  shows "parseInt (padStart k CHR ''0'' (toString n)) = Some (int n)"
proof -
  let ?s = "padStart k CHR ''0'' (toString n)"
  have z: "is_digit CHR ''0''" by (simp add: is_digit_def)
  have dig: "\<forall>c \<in> set ?s. is_digit c"
    using toString_digits[of n] z by (auto simp: padStart_def)
  have ne: "?s \<noteq> []" by (simp add: padStart_def toString_nonempty)
  have "radix_val 10 ?s = n" by (simp add: padStart_def radix_val_zeros radix_val_toString)
  with parseInt_digits[OF ne dig] show ?thesis by simp
qed

lemma length_padStart: "length s \<le> k \<Longrightarrow> length (padStart k c s) = k"
  by (simp add: padStart_def)

lemma parseInt_toString: "parseInt (toString n) = Some (int n)"
proof -
  from parseInt_digits[OF toString_nonempty toString_digits] show ?thesis by (simp add: radix_val_toString)
qed

lemma length_toString_13: "10 ^ 12 \<le> n \<Longrightarrow> n < 10 ^ 13 \<Longrightarrow> length (toString n) = 13"
  using length_toString_ge[of 12 n] length_toString_le[of n 13] by simp


section \<open>The checksum and the decoder on an arbitrary string\<close>

lemma toInteger_Some: "toInteger (Some i) = i"
  by (simp add: toInteger_def)

lemma mod_100_cancel:
  fixes S S' a b :: nat
  assumes "S' mod 100 = S mod 100" and "S' + a = S + b"
  shows "b mod 100 = a mod 100"
proof -
  have "(S + b) mod 100 = (S' + a) mod 100" using assms(2) by simp
  also have "\<dots> = (S' mod 100 + a) mod 100" by (simp add: mod_add_left_eq)
  also have "\<dots> = (S + a) mod 100" by (simp add: assms(1) mod_add_left_eq)
  finally have e: "(S + b) mod 100 = (S + a) mod 100" .
  have "int (S + b) mod 100 = int (S + a) mod 100"
    using e by (metis of_nat_mod of_nat_numeral)
  then have "(100::int) dvd int (S + b) - int (S + a)" by (simp only: mod_eq_dvd_iff)
  then have "(100::int) dvd int b - int a" by simp
  then have "int b mod 100 = int a mod 100" by (simp only: mod_eq_dvd_iff)
  then have "int (b mod 100) = int (a mod 100)" by (simp add: of_nat_mod)
  then show ?thesis by (simp only: of_nat_eq_iff)
qed

lemma length_substring_from:
  "length (substring_from raw x) =
     nat (int (length raw) - min (max (toInteger x) 0) (int (length raw)))"
proof -
  define c where "c = min (max (toInteger x) 0) (int (length raw))"
  have c: "0 \<le> c" "c \<le> int (length raw)" by (auto simp: c_def)
  have "substring_from raw x = take (nat (int (length raw) - c)) (drop (nat c) raw)"
    unfolding substring_from_def substring_def Let_def toInteger_Some c_def [symmetric]
    using c by (simp add: min_absorb1 max_absorb2 min_absorb2 max_absorb1)
  then show ?thesis using c by (simp add: c_def [symmetric] nat_diff_distrib')
qed

lemma header_substrings:
  "substring raw (Some 0) (Some 7) = take 7 raw"
  "substring raw (Some 7) (Some 11) = take 4 (drop 7 raw)"
  "substring raw (Some 11) (Some 24) = take 13 (drop 11 raw)"
  using substring_nat[of 0 7 raw] substring_nat[of 7 11 raw] substring_nat[of 11 24 raw]
  by simp_all

lemma parseMessage_reject_length:
  assumes "26 \<le> length raw"
    and "length (substring_from raw (js_plus 24 (parseInt (take 4 (drop 7 raw))))) \<noteq> 2"
  shows "parseMessage J raw = Inl InvalidChecksum"
proof -
  have "substring_from raw (js_plus 24 (parseInt (take 4 (drop 7 raw)))) \<noteq> calculateChecksum d" for d
    using assms(2) length_calculateChecksum[of d] by auto
  then show ?thesis
    using assms(1) by (simp add: parseMessage_def Let_def header_substrings)
qed

lemma take_header_payload:
  "take 7 raw @ take 4 (drop 7 raw) @ take 13 (drop 11 raw) @ take k (drop 24 raw) = take (24 + k) raw"
proof -
  have a: "take (24 + k) raw = take 24 raw @ take k (drop 24 raw)" by (simp add: take_add)
  have b: "take 24 raw = take 11 raw @ take 13 (drop 11 raw)" using take_add[of 11 13 raw] by simp
  have c: "take 11 raw = take 7 raw @ take 4 (drop 7 raw)" using take_add[of 7 4 raw] by simp
  show ?thesis by (simp add: a b c)
qed

lemma parseMessage_raw:
  assumes "26 \<le> length raw" and "parseInt (take 4 (drop 7 raw)) = Some (int k)"
  shows "parseMessage J raw =
     (if drop (24 + k) raw \<noteq> calculateChecksum (take (24 + k) raw) then Inl InvalidChecksum
      else case parse J (take k (drop 24 raw)) of
             None \<Rightarrow> Inl ParseError
           | Some v \<Rightarrow> Inr \<lparr>m_type = take 7 raw, m_timestamp = parseInt (take 13 (drop 11 raw)),
                           m_payload = v, m_raw = raw\<rparr>)"
proof -
  have d: "substring raw (Some 24) (js_plus 24 (Some (int k))) = take k (drop 24 raw)"
    using substring_nat[of 24 "24 + k" raw] by (simp add: js_plus_def)
  have e: "substring_from raw (js_plus 24 (Some (int k))) = drop (24 + k) raw"
    using substring_from_nat[of raw "24 + k"] by (simp add: js_plus_def)
  have f: "take 7 raw @ take 4 (drop 7 raw) @ take 13 (drop 11 raw) @ take k (drop 24 raw)
             = take (24 + k) raw"
    by (rule take_header_payload)
  show ?thesis
    using assms(1) unfolding parseMessage_def Let_def header_substrings assms(2) d e f by simp
qed

lemma char_sum_foldl: "foldl (\<lambda>sum c. sum + of_char c) a xs = a + char_sum xs"
proof (induction xs arbitrary: a)
  case Nil
  then show ?case by (simp add: char_sum_def)
next
  case (Cons x xs)
  have "foldl (\<lambda>sum c. sum + of_char c) (a + of_char x) xs = a + of_char x + char_sum xs"
    by (rule Cons.IH)
  moreover have "char_sum (x # xs) = of_char x + char_sum xs"
    using Cons.IH[of "of_char x"] by (simp add: char_sum_def)
  ultimately show ?case by simp
qed

lemma char_sum_Cons: "char_sum (x # xs) = of_char x + char_sum xs"
  using char_sum_foldl[of "of_char x" xs] by (simp add: char_sum_def)

lemma char_sum_Nil: "char_sum [] = 0"
  by (simp add: char_sum_def)

lemma char_sum_append: "char_sum (xs @ ys) = char_sum xs + char_sum ys"
  by (induction xs) (simp_all add: char_sum_Cons char_sum_Nil)

lemma char_sum_update:
  "i < length xs \<Longrightarrow> char_sum (xs[i := c]) + of_char (xs ! i) = char_sum xs + of_char c"
proof (induction xs arbitrary: i)
  case Nil
  then show ?case by simp
next
  case (Cons x xs)
  then show ?case by (cases i) (auto simp: char_sum_Cons)
qed

lemma calculateChecksum_eq_iff:
  "calculateChecksum a = calculateChecksum b \<longleftrightarrow> char_sum a mod 100 = char_sum b mod 100"
proof
  assume eq: "calculateChecksum a = calculateChecksum b"
  have "parseInt (calculateChecksum d) = Some (int (char_sum d mod 100))" for d
    unfolding calculateChecksum_def by (rule parseInt_padded) simp_all
  from this[of a] this[of b] eq show "char_sum a mod 100 = char_sum b mod 100" by simp
next
  assume "char_sum a mod 100 = char_sum b mod 100"
  then show "calculateChecksum a = calculateChecksum b" by (simp add: calculateChecksum_def)
qed

lemma checksum_update_neq:
  assumes "i < length xs" and "(of_char c :: nat) mod 100 \<noteq> of_char (xs ! i) mod 100"
  shows "calculateChecksum (xs[i := c]) \<noteq> calculateChecksum xs"
proof
  assume "calculateChecksum (xs[i := c]) = calculateChecksum xs"
  then have "char_sum (xs[i := c]) mod 100 = char_sum xs mod 100"
    by (simp add: calculateChecksum_eq_iff)
  moreover have "char_sum (xs[i := c]) + of_char (xs ! i) = char_sum xs + of_char c"
    by (rule char_sum_update[OF assms(1)])
  ultimately have "(of_char c :: nat) mod 100 = of_char (xs ! i) mod 100"
    by (rule mod_100_cancel)
  with assms(2) show False by simp
qed

lemma MESSAGE_TYPES_length: "type \<in> set MESSAGE_TYPES \<Longrightarrow> length type = 7"
  by (auto simp: MESSAGE_TYPES_def)

lemma createMessage_body:
  "createMessage J now type p =
     (type @ padStart 4 CHR ''0'' (toString (length (stringify J p))) @ toString now @ stringify J p)
     @ calculateChecksum
         (type @ padStart 4 CHR ''0'' (toString (length (stringify J p))) @ toString now @ stringify J p)"
  by (simp add: createMessage_def Let_def)

lemma length_padStart_4:
  "n \<le> 9999 \<Longrightarrow> length (padStart 4 CHR ''0'' (toString n)) = 4"
  using length_toString_le[of n 4] by (simp add: length_padStart)

lemma radix_val_bound:
  "\<forall>c \<in> set s. is_digit c \<Longrightarrow> radix_val 10 s < 10 ^ length s"
proof (induction s rule: rev_induct)
  case Nil
  then show ?case by (simp add: radix_val_def)
next
  case (snoc x xs)
  then have "is_digit x" by simp
  then have "the (digit_val 10 x) < 10"
    by (auto simp: is_digit_def digit_val_def Let_def)
  moreover have "radix_val 10 xs < 10 ^ length xs" using snoc by simp
  ultimately show ?case by (simp add: radix_val_snoc)
qed

lemma oversize_rejected:
  assumes ty: "length type = 7"
    and now: "10 ^ 12 \<le> now" "now < 10 ^ 13"
    and len: "10000 \<le> length (stringify J p)"
  shows "parseMessage J (createMessage J now type p) = Inl InvalidChecksum"
proof -
  define n where "n = length (stringify J p)"
  define L where "L = toString n"
  have d: "5 \<le> length L" using length_toString_ge[of 4 n] len by (simp add: L_def n_def)
  have pad: "padStart 4 CHR ''0'' (toString n) = L" using d by (simp add: padStart_def L_def)
  define raw where "raw = createMessage J now type p"
  have raw: "raw = type @ L @ toString now @ stringify J p @ calculateChecksum (type @ L @ toString now @ stringify J p)"
    by (simp add: raw_def createMessage_def Let_def n_def [symmetric] pad)
  have lraw: "length raw = 22 + length L + n"
    using ty length_toString_13[OF now] by (simp add: raw length_calculateChecksum n_def)
  have l4: "take 4 (drop 7 raw) = take 4 L" using ty d by (simp add: raw)
  have dig: "\<forall>c \<in> set (take 4 L). is_digit c"
    using toString_digits[of n] by (auto simp: L_def dest: in_set_takeD)
  have ne: "take 4 L \<noteq> []" using d by auto
  define k where "k = radix_val 10 (take 4 L)"
  have pk: "parseInt (take 4 L) = Some (int k)"
    using parseInt_digits[OF ne dig] by (simp add: k_def)
  have "k < 10 ^ length (take 4 L)" unfolding k_def by (rule radix_val_bound[OF dig])
  then have k: "k < 10000" using d by simp
  have "length (substring_from raw (js_plus 24 (parseInt (take 4 (drop 7 raw))))) \<noteq> 2"
    using k d len by (simp add: l4 pk length_substring_from js_plus_def toInteger_def lraw n_def)
  then show ?thesis
    unfolding raw_def [symmetric] using lraw d by (intro parseMessage_reject_length) simp_all
qed


section \<open>Round trip of a well-formed frame\<close>

lemma parseMessage_createMessage:
  assumes "length type = 7"
    and "10 ^ 12 \<le> now" "now < 10 ^ 13"
    and "length (stringify J p) \<le> 9999"
    and "parse J (stringify J p) = Some p"
  shows "parseMessage J (createMessage J now type p) =
           Inr \<lparr>m_type = type, m_timestamp = Some (int now), m_payload = p,
                m_raw = createMessage J now type p\<rparr>"
proof -
  let ?js = "stringify J p"
  let ?l = "padStart 4 CHR ''0'' (toString (length ?js))"
  let ?ts = "toString now"
  let ?ck = "calculateChecksum (type @ ?l @ ?ts @ ?js)"
  have cm: "createMessage J now type p = type @ ?l @ ?ts @ (?js @ ?ck)"
    by (simp add: createMessage_def Let_def)
  have n: "length ?js < 10 ^ 4" using assms(4) by simp
  have l4: "length ?l = 4" using length_toString_le[OF n] by (simp add: length_padStart)
  have pl: "parseInt ?l = Some (int (length ?js))" using parseInt_padded[OF n] by simp
  have ts13: "length ?ts = 13" using assms(2,3) by (rule length_toString_13)
  have r2: "2 \<le> length (?js @ ?ck)" by (simp add: length_calculateChecksum)
  show ?thesis
    unfolding cm
    by (subst parseMessage_frame[OF assms(1) l4 ts13 r2 pl])
       (simp add: assms(5) parseInt_toString)
qed

section \<open>Socket writes and the handling of one read\<close>

lemma failing_write_or_delete: "failing (write_or_delete msg h c) = failing h"
  by (simp add: write_or_delete_def)

lemma wire_write_or_delete:
  "wire (write_or_delete msg h c) c' =
     wire h c' @ (if c' = c \<and> c \<notin> failing h then [msg @ [CHR 0x0A]] else [])"
  by (simp add: write_or_delete_def)

lemma wire_foldl_write_or_delete:
  "distinct cs \<Longrightarrow>
   wire (foldl (write_or_delete msg) h cs) c' =
     wire h c' @ (if c' \<in> set cs \<and> c' \<notin> failing h then [msg @ [CHR 0x0A]] else [])"
proof (induction cs arbitrary: h)
  case Nil
  then show ?case by simp
next
  case (Cons c cs)
  then have d: "distinct cs" and n: "c \<notin> set cs" by simp_all
  show ?case
    using Cons.IH[OF d, of "write_or_delete msg h c"] n
    by (auto simp: failing_write_or_delete wire_write_or_delete)
qed

lemma is_digit_not_nl: "is_digit c \<Longrightarrow> c \<noteq> CHR 0x0A"
  by (auto simp: is_digit_def)

lemma padStart_digits:
  "\<forall>c \<in> set (padStart k CHR ''0'' (toString n)). is_digit c"
  using toString_digits[of n] by (auto simp: padStart_def is_digit_def)

lemma calculateChecksum_digits: "\<forall>c \<in> set (calculateChecksum d). is_digit c"
  unfolding calculateChecksum_def by (rule padStart_digits)

lemma MESSAGE_TYPES_chars:
  "type \<in> set MESSAGE_TYPES \<Longrightarrow> type \<noteq> [] \<and> \<not> is_ws (hd type) \<and> CHR 0x0A \<notin> set type"
  by (auto simp: MESSAGE_TYPES_def is_ws_def)

lemma digits_no_newline: "\<forall>c \<in> set s. is_digit c \<Longrightarrow> CHR 0x0A \<notin> set s"
  using is_digit_not_nl by blast

lemma frame_no_newline:
  assumes "type \<in> set MESSAGE_TYPES" and "CHR 0x0A \<notin> set (stringify J p)"
  shows "CHR 0x0A \<notin> set (createMessage J now type p)"
proof -
  have a: "CHR 0x0A \<notin> set type" using MESSAGE_TYPES_chars[OF assms(1)] by simp
  have b: "CHR 0x0A \<notin> set (padStart 4 CHR ''0'' (toString (length (stringify J p))))"
    by (rule digits_no_newline[OF padStart_digits])
  have c: "CHR 0x0A \<notin> set (toString now)"
    by (rule digits_no_newline[OF toString_digits])
  have d: "CHR 0x0A \<notin> set (calculateChecksum x)" for x
    by (rule digits_no_newline[OF calculateChecksum_digits])
  show ?thesis using a b c d assms(2) by (simp add: createMessage_def Let_def)
qed

lemma split_nl_no_newline: "CHR 0x0A \<notin> set s \<Longrightarrow> split_nl s = [s]"
  by (induction s) auto

lemma trim_prefix:
  assumes "s \<noteq> []" and "\<not> is_ws (hd s)"
  shows "\<exists>k. 0 < k \<and> k \<le> length s \<and> trim s = take k s"
proof -
  have d: "dropWhile is_ws s = s" using assms by (cases s) auto
  obtain j where j: "dropWhile is_ws (rev s) = drop j (rev s)"
    using dropWhile_eq_drop by blast
  have ne: "dropWhile is_ws (rev s) \<noteq> []"
  proof
    assume "dropWhile is_ws (rev s) = []"
    then have "\<forall>x \<in> set (rev s). is_ws x" by (simp add: dropWhile_eq_Nil_conv)
    then have "is_ws (hd s)" using assms(1) by (cases s) auto
    with assms(2) show False by simp
  qed
  then have jl: "j < length s" using j by auto
  have "trim s = rev (drop j (rev s))" by (simp add: trim_def d j)
  also have "\<dots> = take (length s - j) s" by (simp add: rev_drop)
  finally show ?thesis using jl by (intro exI[of _ "length s - j"]) auto
qed

lemma trim_frame_newline:
  assumes "s \<noteq> []" and "\<not> is_ws (hd s)" and "\<not> is_ws (last s)"
  shows "trim (s @ [CHR 0x0A]) = s"
proof -
  have d: "dropWhile is_ws (s @ [CHR 0x0A]) = s @ [CHR 0x0A]" using assms by (cases s) auto
  have w: "is_ws CHR 0x0A" by (simp add: is_ws_def)
  have "rev s \<noteq> []" "\<not> is_ws (hd (rev s))" using assms by (simp_all add: hd_rev)
  then have "dropWhile is_ws (rev s) = rev s" by (cases "rev s") auto
  then show ?thesis by (simp add: trim_def d w)
qed

lemma prefix_rejected:
  assumes ty: "length type = 7"
    and now: "10 ^ 12 \<le> sentAt" "sentAt < 10 ^ 13"
    and len: "length (stringify J p) \<le> 9999"
    and k: "k < length (createMessage J sentAt type p)"
  shows "\<exists>e. parseMessage J (take k (createMessage J sentAt type p)) = Inl e"
proof (cases "k < 26")
  case True
  then show ?thesis using k by (simp add: parseMessage_def)
next
  case False
  define n where "n = length (stringify J p)"
  define l where "l = padStart 4 CHR ''0'' (toString n)"
  define frame where "frame = createMessage J sentAt type p"
  define g where "g = take k frame"
  have l4: "length l = 4" using length_padStart_4[of n] len by (simp add: l_def n_def)
  have fr: "frame = type @ l @ (toString sentAt @ stringify J p
              @ calculateChecksum (type @ l @ toString sentAt @ stringify J p))"
    by (simp add: frame_def createMessage_def Let_def l_def n_def)
  have lf: "length frame = 26 + n"
    using ty l4 length_toString_13[OF now] by (simp add: fr length_calculateChecksum n_def)
  have lg: "length g = k" using k by (simp add: g_def frame_def)
  have "take 4 (drop 7 g) = take 4 (drop 7 frame)" using False by (simp add: g_def drop_take)
  also have "\<dots> = l" using ty l4 by (simp add: fr)
  finally have ls: "take 4 (drop 7 g) = l" .
  have pl: "parseInt l = Some (int n)"
    unfolding l_def using len by (intro parseInt_padded) (simp_all add: n_def)
  have "length (substring_from g (js_plus 24 (parseInt (take 4 (drop 7 g))))) \<noteq> 2"
    using k lf by (simp add: ls pl length_substring_from js_plus_def toInteger_def lg frame_def [symmetric])
  then have "parseMessage J g = Inl InvalidChecksum"
    using False lg by (intro parseMessage_reject_length) simp_all
  then show ?thesis by (auto simp: g_def frame_def)
qed

lemma handleClientData_rejected:
  assumes "trim data = g" and "CHR 0x0A \<notin> set g" and "g \<noteq> []"
    and "parseMessage J g = Inl e" and "client \<notin> failing h"
  shows "handleClientData J now h client data =
     h\<lparr>wire := (wire h)(client := wire h client @
          [createMessage J now ''ERR_MSG''
             (JObj [(''error'', JStr ''Invalid message format''), (''timestamp'', JNum (int now))])
           @ [CHR 0x0A]])\<rparr>"
  using assms
  by (simp add: handleClientData_def split_nl_no_newline handleMessageStr_def
      sendToClient_def write_or_delete_def)

lemma handleClientData_accepted:
  assumes "trim data = g" and "CHR 0x0A \<notin> set g" and "g \<noteq> []"
    and "parseMessage J g = Inr msg" and "client \<notin> failing h"
  shows "handleClientData J now h client data =
     h\<lparr>wire := (wire h)(client := wire h client @
          [createMessage J now ''ACK_MSG''
             (JObj [(''originalType'', JStr (m_type msg)), (''timestamp'', JNum (int now))])
           @ [CHR 0x0A]]),
       emitted := emitted h @ [(client, msg)]\<rparr>"
  using assms
  by (simp add: handleClientData_def split_nl_no_newline handleMessageStr_def
      sendToClient_def write_or_delete_def Let_def)

lemma createMessage_ends:
  assumes "type \<in> set MESSAGE_TYPES"
  shows "createMessage J now type p \<noteq> [] \<and> \<not> is_ws (hd (createMessage J now type p))
         \<and> \<not> is_ws (last (createMessage J now type p))"
proof -
  let ?body = "type @ padStart 4 CHR ''0'' (toString (length (stringify J p))) @ toString now @ stringify J p"
  have ne: "type \<noteq> []" and h: "\<not> is_ws (hd type)"
    using MESSAGE_TYPES_chars[OF assms] by simp_all
  have c2: "calculateChecksum ?body \<noteq> []"
    using length_calculateChecksum[of ?body] by auto
  then have "last (calculateChecksum ?body) \<in> set (calculateChecksum ?body)" by simp
  then have "is_digit (last (calculateChecksum ?body))"
    using calculateChecksum_digits by blast
  then have l: "\<not> is_ws (last (calculateChecksum ?body))" by (rule is_digit_not_ws)
  show ?thesis using ne h c2 l by (simp add: createMessage_body)
qed

text \<open>
  The fold over the lines of one read, in closed form: every non-empty line appends one
  reply to the socket of the sender, and a line that decodes is emitted as well.
\<close>

lemma handleMessageStr_step:
  assumes "client \<notin> failing h"
  shows "handleMessageStr J now client h line =
     h\<lparr>wire := (wire h)(client := wire h client @
          (if line = [] then []
           else [(case parseMessage J line of
                    Inl e \<Rightarrow> createMessage J now ''ERR_MSG''
                               (JObj [(''error'', JStr ''Invalid message format''),
                                      (''timestamp'', JNum (int now))])
                  | Inr message \<Rightarrow> createMessage J now ''ACK_MSG''
                               (JObj [(''originalType'', JStr (m_type message)),
                                      (''timestamp'', JNum (int now))]))
                 @ [CHR 0x0A]])),
       emitted := emitted h @
          (if line = [] then []
           else (case parseMessage J line of Inl e \<Rightarrow> [] | Inr message \<Rightarrow> [(client, message)]))\<rparr>"
  using assms
  by (cases "parseMessage J line")
     (simp_all add: handleMessageStr_def sendToClient_def write_or_delete_def Let_def)

lemma foldl_handleMessageStr_fields:
  assumes "client \<notin> failing h"
  shows "wire (foldl (handleMessageStr J now client) h lines) =
           (wire h)(client := wire h client @
              map (\<lambda>line. (case parseMessage J line of
                              Inl e \<Rightarrow> createMessage J now ''ERR_MSG''
                                         (JObj [(''error'', JStr ''Invalid message format''),
                                                (''timestamp'', JNum (int now))])
                            | Inr message \<Rightarrow> createMessage J now ''ACK_MSG''
                                         (JObj [(''originalType'', JStr (m_type message)),
                                                (''timestamp'', JNum (int now))]))
                           @ [CHR 0x0A])
                  (filter (\<lambda>line. line \<noteq> []) lines))
       \<and> emitted (foldl (handleMessageStr J now client) h lines) =
           emitted h @
             concat (map (\<lambda>line. case parseMessage J line of
                                    Inl e \<Rightarrow> [] | Inr message \<Rightarrow> [(client, message)])
                       (filter (\<lambda>line. line \<noteq> []) lines))
       \<and> clients (foldl (handleMessageStr J now client) h lines) = clients h
       \<and> failing (foldl (handleMessageStr J now client) h lines) = failing h
       \<and> hub.more (foldl (handleMessageStr J now client) h lines) = hub.more h"
  using assms
proof (induction lines arbitrary: h)
  case Nil
  then show ?case by simp
next
  case (Cons l ls)
  let ?h1 = "handleMessageStr J now client h l"
  have f: "client \<notin> failing ?h1"
    using Cons.prems by (simp add: handleMessageStr_step)
  show ?case
  proof (cases "l = []")
    case True
    then have "?h1 = h" by (simp add: handleMessageStr_def)
    with Cons.IH[OF Cons.prems] True show ?thesis by simp
  next
    case False
    note IH = Cons.IH[OF f]
    have w: "wire ?h1 = (wire h)(client := wire h client @
               [(case parseMessage J l of
                    Inl e \<Rightarrow> createMessage J now ''ERR_MSG''
                               (JObj [(''error'', JStr ''Invalid message format''),
                                      (''timestamp'', JNum (int now))])
                  | Inr message \<Rightarrow> createMessage J now ''ACK_MSG''
                               (JObj [(''originalType'', JStr (m_type message)),
                                      (''timestamp'', JNum (int now))]))
                 @ [CHR 0x0A]])"
      and e: "emitted ?h1 = emitted h @
               (case parseMessage J l of Inl e \<Rightarrow> [] | Inr message \<Rightarrow> [(client, message)])"
      and c: "clients ?h1 = clients h" "failing ?h1 = failing h" "hub.more ?h1 = hub.more h"
      using False by (simp_all add: handleMessageStr_step[OF Cons.prems])
    show ?thesis
      using False by (simp only: foldl_Cons IH w e c) (auto simp: fun_eq_iff)
  qed
qed

lemma foldl_handleMessageStr:
  assumes "client \<notin> failing h"
  shows "foldl (handleMessageStr J now client) h lines =
     h\<lparr>wire := (wire h)(client := wire h client @
          map (\<lambda>line. (case parseMessage J line of
                          Inl e \<Rightarrow> createMessage J now ''ERR_MSG''
                                     (JObj [(''error'', JStr ''Invalid message format''),
                                            (''timestamp'', JNum (int now))])
                        | Inr message \<Rightarrow> createMessage J now ''ACK_MSG''
                                     (JObj [(''originalType'', JStr (m_type message)),
                                            (''timestamp'', JNum (int now))]))
                       @ [CHR 0x0A])
              (filter (\<lambda>line. line \<noteq> []) lines)),
       emitted := emitted h @
          concat (map (\<lambda>line. case parseMessage J line of
                                 Inl e \<Rightarrow> [] | Inr message \<Rightarrow> [(client, message)])
                    (filter (\<lambda>line. line \<noteq> []) lines))\<rparr>"
  by (rule hub.equality) (simp_all add: foldl_handleMessageStr_fields[OF assms])

lemma split_nl_append_newline:
  "CHR 0x0A \<notin> set x \<Longrightarrow> split_nl (x @ CHR 0x0A # r) = x # split_nl r"
  by (induction x) auto

lemma split_nl_join:
  "lines \<noteq> [] \<Longrightarrow> \<forall>l \<in> set lines. CHR 0x0A \<notin> set l \<Longrightarrow>
   split_nl (join [CHR 0x0A] lines) = lines"
proof (induction "[CHR 0x0A]" lines rule: join.induct)
  case 1
  then show ?case by simp
next
  case (2 x)
  then show ?case by (simp add: split_nl_no_newline)
next
  case (3 x y ys)
  then show ?case by (simp add: split_nl_append_newline)
qed

lemma join_ends:
  "lines \<noteq> [] \<Longrightarrow> \<forall>l \<in> set lines. l \<noteq> [] \<Longrightarrow>
   join sep lines \<noteq> [] \<and> hd (join sep lines) = hd (hd lines)
   \<and> last (join sep lines) = last (last lines)"
proof (induction sep lines rule: join.induct)
  case (1 sep)
  then show ?case by simp
next
  case (2 sep x)
  then show ?case by simp
next
  case (3 sep x y ys)
  then show ?case by simp
qed

lemma trim_id:
  assumes "s \<noteq> []" and "\<not> is_ws (hd s)" and "\<not> is_ws (last s)"
  shows "trim s = s"
proof -
  have d: "dropWhile is_ws s = s" using assms by (cases s) auto
  have "rev s \<noteq> []" "\<not> is_ws (hd (rev s))" using assms by (simp_all add: hd_rev)
  then have "dropWhile is_ws (rev s) = rev s" by (cases "rev s") auto
  then show ?thesis by (simp add: trim_def d)
qed

lemma handleClientData_lines:
  assumes "client \<notin> failing h"
  shows "handleClientData J now h client data =
     h\<lparr>wire := (wire h)(client := wire h client @
          map (\<lambda>line. (case parseMessage J line of
                          Inl e \<Rightarrow> createMessage J now ''ERR_MSG''
                                     (JObj [(''error'', JStr ''Invalid message format''),
                                            (''timestamp'', JNum (int now))])
                        | Inr message \<Rightarrow> createMessage J now ''ACK_MSG''
                                     (JObj [(''originalType'', JStr (m_type message)),
                                            (''timestamp'', JNum (int now))]))
                       @ [CHR 0x0A])
              (filter (\<lambda>line. line \<noteq> []) (split_nl (trim data)))),
       emitted := emitted h @
          concat (map (\<lambda>line. case parseMessage J line of
                                 Inl e \<Rightarrow> [] | Inr message \<Rightarrow> [(client, message)])
                    (filter (\<lambda>line. line \<noteq> []) (split_nl (trim data))))\<rparr>"
  by (simp only: handleClientData_def Let_def foldl_handleMessageStr[OF assms])

lemma handleClientData_frames:
  assumes ok: "client \<notin> failing h"
    and ne: "fs \<noteq> []"
    and valid: "\<forall>(sentAt, type, p) \<in> set fs.
                  type \<in> set MESSAGE_TYPES \<and> 10 ^ 12 \<le> sentAt \<and> sentAt < 10 ^ 13
                  \<and> length (stringify J p) \<le> 9999 \<and> parse J (stringify J p) = Some p
                  \<and> CHR 0x0A \<notin> set (stringify J p)"
    and data: "data = join [CHR 0x0A] (map (\<lambda>(sentAt, type, p). createMessage J sentAt type p) fs)
               \<or> data = join [CHR 0x0A] (map (\<lambda>(sentAt, type, p). createMessage J sentAt type p) fs)
                         @ [CHR 0x0A]"
  shows "handleClientData J now h client data =
     h\<lparr>wire := (wire h)(client := wire h client @
          map (\<lambda>(sentAt, type, p).
                 createMessage J now ''ACK_MSG''
                   (JObj [(''originalType'', JStr type), (''timestamp'', JNum (int now))])
                 @ [CHR 0x0A]) fs),
       emitted := emitted h @
          map (\<lambda>(sentAt, type, p).
                 (client, \<lparr>m_type = type, m_timestamp = Some (int sentAt), m_payload = p,
                           m_raw = createMessage J sentAt type p\<rparr>)) fs\<rparr>"
proof -
  define frame where "frame = (\<lambda>(sentAt :: nat, type, p). createMessage J sentAt type p)"
  define lines where "lines = map frame fs"
  have each: "frame f \<noteq> [] \<and> \<not> is_ws (hd (frame f)) \<and> \<not> is_ws (last (frame f))
              \<and> CHR 0x0A \<notin> set (frame f)
              \<and> parseMessage J (frame f) =
                  Inr \<lparr>m_type = fst (snd f), m_timestamp = Some (int (fst f)),
                       m_payload = snd (snd f), m_raw = frame f\<rparr>"
    if "f \<in> set fs" for f
  proof -
    obtain sentAt type p where f: "f = (sentAt, type, p)" by (cases f)
    from valid that f have v: "type \<in> set MESSAGE_TYPES" "10 ^ 12 \<le> sentAt" "sentAt < 10 ^ 13"
      "length (stringify J p) \<le> 9999" "parse J (stringify J p) = Some p"
      "CHR 0x0A \<notin> set (stringify J p)"
      by auto
    show ?thesis
      using createMessage_ends[OF v(1), of J sentAt p] frame_no_newline[OF v(1) v(6), of sentAt]
        parseMessage_createMessage[OF MESSAGE_TYPES_length[OF v(1)] v(2-5)]
      by (simp add: f frame_def)
  qed
  have lne: "lines \<noteq> []" using ne by (simp add: lines_def)
  have nonl: "\<forall>l \<in> set lines. CHR 0x0A \<notin> set l" using each by (auto simp: lines_def)
  have nonempty: "\<forall>l \<in> set lines. l \<noteq> []" using each by (auto simp: lines_def)
  have "hd lines \<in> set lines" "last lines \<in> set lines" using lne by simp_all
  then have "\<not> is_ws (hd (hd lines))" "\<not> is_ws (last (last lines))"
    using each by (auto simp: lines_def)
  then have ends: "join [CHR 0x0A] lines \<noteq> []" "\<not> is_ws (hd (join [CHR 0x0A] lines))"
    "\<not> is_ws (last (join [CHR 0x0A] lines))"
    using join_ends[OF lne nonempty, of "[CHR 0x0A]"] by simp_all
  have "trim data = join [CHR 0x0A] lines"
    using data trim_id[OF ends] trim_frame_newline[OF ends]
    by (auto simp: lines_def frame_def)
  then have sp: "split_nl (trim data) = lines" by (simp add: split_nl_join[OF lne nonl])
  have fl: "filter (\<lambda>line. line \<noteq> []) lines = lines" using nonempty by simp
  have r: "map (\<lambda>line. (case parseMessage J line of
                          Inl e \<Rightarrow> createMessage J now ''ERR_MSG''
                                     (JObj [(''error'', JStr ''Invalid message format''),
                                            (''timestamp'', JNum (int now))])
                        | Inr message \<Rightarrow> createMessage J now ''ACK_MSG''
                                     (JObj [(''originalType'', JStr (m_type message)),
                                            (''timestamp'', JNum (int now))]))
                       @ [CHR 0x0A]) lines =
           map (\<lambda>(sentAt, type, p).
                 createMessage J now ''ACK_MSG''
                   (JObj [(''originalType'', JStr type), (''timestamp'', JNum (int now))])
                 @ [CHR 0x0A]) fs"
    using each by (auto simp: lines_def)
  have d: "concat (map (\<lambda>line. case parseMessage J line of
                                 Inl e \<Rightarrow> [] | Inr message \<Rightarrow> [(client, message)]) lines) =
           map (\<lambda>(sentAt, type, p).
                 (client, \<lparr>m_type = type, m_timestamp = Some (int sentAt), m_payload = p,
                           m_raw = createMessage J sentAt type p\<rparr>)) fs"
  proof -
    have "map (\<lambda>line. case parseMessage J line of
                                 Inl e \<Rightarrow> [] | Inr message \<Rightarrow> [(client, message)]) lines =
          map (\<lambda>f. [(client, \<lparr>m_type = fst (snd f), m_timestamp = Some (int (fst f)),
                              m_payload = snd (snd f), m_raw = frame f\<rparr>)]) fs"
      using each by (auto simp: lines_def)
    then show ?thesis
      by (simp add: frame_def case_prod_beta concat_map_singleton)
  qed
  show ?thesis
    by (simp only: handleClientData_lines[OF ok] sp fl r d)
qed

lemma handleClientData_first_chunk:
  assumes ok: "client \<notin> failing h"
    and ty: "type \<in> set MESSAGE_TYPES"
    and sent: "10 ^ 12 \<le> sentAt" "sentAt < 10 ^ 13"
    and len: "length (stringify J p) \<le> 9999"
    and nl: "CHR 0x0A \<notin> set (stringify J p)"
    and split: "createMessage J sentAt type p = f1 @ f2" "f1 \<noteq> []" "f2 \<noteq> []"
  shows "handleClientData J now h client f1 =
           h\<lparr>wire := (wire h)(client := wire h client @
                [createMessage J now ''ERR_MSG''
                   (JObj [(''error'', JStr ''Invalid message format''),
                          (''timestamp'', JNum (int now))])
                 @ [CHR 0x0A]])\<rparr>"
proof -
  let ?frame = "createMessage J sentAt type p"
  from split have f1: "f1 \<noteq> []" and hd1: "hd f1 = hd ?frame" and l1: "length f1 < length ?frame"
    and tk: "f1 = take (length f1) ?frame"
    by auto
  have "\<not> is_ws (hd f1)" using createMessage_ends[OF ty, of J sentAt p] hd1 by simp
  from trim_prefix[OF f1 this] obtain k where
    k: "0 < k" "k \<le> length f1" "trim f1 = take k f1" by blast
  have g: "take k f1 = take k ?frame" using k(2) tk by (metis min.absorb1 take_take)
  have kl: "k < length ?frame" using k(2) l1 by simp
  have nonl: "CHR 0x0A \<notin> set (take k ?frame)"
    using frame_no_newline[OF ty nl, of sentAt] by (auto dest: in_set_takeD)
  have ne: "take k ?frame \<noteq> []" using k(1) kl by auto
  obtain e where e: "parseMessage J (take k ?frame) = Inl e"
    using prefix_rejected[OF MESSAGE_TYPES_length[OF ty] sent len kl] by blast
  show ?thesis
    using k(3) g by (intro handleClientData_rejected[OF _ nonl ne e ok]) simp
qed


section \<open>The engine operations in closed form\<close>

lemma updateStatus_valid:
  "newStatus \<in> set validStatuses \<Longrightarrow>
   updateStatus now newStatus loc desc pkg =
     Inr (pkg\<lparr>status := newStatus,
              location := (if truthy loc then loc else location pkg),
              updatedAt := now,
              events := events pkg @
                [\<lparr>eventType = newStatus,
                  description = (if truthy desc then the desc
                                 else ''Package status updated to '' @ newStatus),
                  timestamp = now,
                  eventLocation = (if truthy loc then loc else location pkg)\<rparr>]\<rparr>)"
  by (simp add: updateStatus_def Let_def addEvent_def)

lemma valid_status_simps:
  "''stored'' \<in> set validStatuses" "''picked'' \<in> set validStatuses"
  "''loaded'' \<in> set validStatuses" "''received'' \<in> set validStatuses"
  by (simp_all add: validStatuses_def)

lemma truthy_simps:
  "truthy None = False" "truthy (Some s) = (s \<noteq> [])"
  by (simp_all add: truthy_def)

lemma receivePackage_result:
  assumes "truthy (pd_packageId d)" and "truthy (pd_clientId d)"
  shows "receivePackage wh now d m =
     Inr (JObj [(''status'', JStr ''received''),
                (''packageId'', JStr (the (pd_packageId d))),
                (''warehouse'', JStr wh),
                (''receiptTime'', JNum (int now)),
                (''nextStep'', JStr ''storage_assignment'')],
          m\<lparr>packages := (packages m)(the (pd_packageId d) \<mapsto>
                 new_Package now (the (pd_packageId d)) (the (pd_clientId d)) (pd_orderId d)
                   (case pd_items d of None \<Rightarrow> [] | Some xs \<Rightarrow> xs) (pd_deliveryAddress d)),
            emittedEvents := emittedEvents m @
              [(''package_received'',
                new_Package now (the (pd_packageId d)) (the (pd_clientId d)) (pd_orderId d)
                   (case pd_items d of None \<Rightarrow> [] | Some xs \<Rightarrow> xs) (pd_deliveryAddress d))]\<rparr>)"
  using assms
  by (simp add: receivePackage_def Let_def addPackage_def emitEvent_def new_Package_def addEvent_def)

lemma new_Package_fields:
  "status (new_Package now k c ord its addr) = ''received''"
  "packageId (new_Package now k c ord its addr) = k"
  "location (new_Package now k c ord its addr) = None"
  "events (new_Package now k c ord its addr) =
     [\<lparr>eventType = ''received'', description = ''Package received from client'',
       timestamp = now, eventLocation = None\<rparr>]"
  by (simp_all add: new_Package_def addEvent_def)

lemma storePackage_result:
  "storePackage wh now k loc m =
     (case packages m k of
        None \<Rightarrow> Inl (''Package '' @ k @ '' not found'')
      | Some pkg \<Rightarrow>
          Inr (JObj [(''status'', JStr ''stored''), (''packageId'', JStr k),
                     (''location'', JStr loc), (''warehouse'', JStr wh),
                     (''storageTime'', JNum (int now))],
               m\<lparr>packages := (packages m)(k \<mapsto>
                      pkg\<lparr>status := ''stored'',
                          location := (if loc \<noteq> [] then Some loc else location pkg),
                          updatedAt := now,
                          events := events pkg @
                            [\<lparr>eventType = ''stored'',
                              description = ''Package stored at '' @ loc,
                              timestamp = now,
                              eventLocation = (if loc \<noteq> [] then Some loc else location pkg)\<rparr>]\<rparr>),
                 emittedEvents := emittedEvents m @
                   [(''package_updated'',
                      pkg\<lparr>status := ''stored'',
                          location := (if loc \<noteq> [] then Some loc else location pkg),
                          updatedAt := now,
                          events := events pkg @
                            [\<lparr>eventType = ''stored'',
                              description = ''Package stored at '' @ loc,
                              timestamp = now,
                              eventLocation = (if loc \<noteq> [] then Some loc else location pkg)\<rparr>]\<rparr>)]\<rparr>))"
  by (simp add: storePackage_def updatePackageStatus_def getPackage_def
      updateStatus_valid valid_status_simps truthy_simps emitEvent_def split: option.split)

lemma pickPackage_result:
  "pickPackage now k m =
     (case packages m k of
        None \<Rightarrow> Inl (''Package '' @ k @ '' not found'')
      | Some pkg \<Rightarrow>
          if status pkg \<noteq> ''stored''
          then Inl (''Package '' @ k @ '' is not ready for pickup. Current status: ''
                    @ status pkg @ ''. Expected: stored'')
          else
            Inr (JObj [(''status'', JStr ''picked''), (''packageId'', JStr k),
                       (''location'', json_of_option (location pkg)),
                       (''pickingTime'', JNum (int now)),
                       (''nextStep'', JStr ''vehicle_loading'')],
               m\<lparr>packages := (packages m)(k \<mapsto>
                      pkg\<lparr>status := ''picked'', updatedAt := now,
                          events := events pkg @
                            [\<lparr>eventType = ''picked'',
                              description = ''Package picked for order fulfillment'',
                              timestamp = now, eventLocation = location pkg\<rparr>]\<rparr>),
                 emittedEvents := emittedEvents m @
                   [(''package_updated'',
                      pkg\<lparr>status := ''picked'', updatedAt := now,
                          events := events pkg @
                            [\<lparr>eventType = ''picked'',
                              description = ''Package picked for order fulfillment'',
                              timestamp = now, eventLocation = location pkg\<rparr>]\<rparr>)]\<rparr>))"
  by (simp add: pickPackage_def updatePackageStatus_def getPackage_def
      updateStatus_valid valid_status_simps truthy_simps emitEvent_def split: option.split)

lemma loadPackage_result:
  "loadPackage now k v m =
     (case packages m k of
        None \<Rightarrow> Inl (''Package '' @ k @ '' not found'')
      | Some pkg \<Rightarrow>
          Inr (JObj [(''status'', JStr ''loaded''), (''packageId'', JStr k),
                     (''vehicleId'', JStr v), (''loadingTime'', JNum (int now)),
                     (''readyForDelivery'', JBool True)],
               m\<lparr>packages := (packages m)(k \<mapsto>
                      pkg\<lparr>assignedVehicle := Some v, status := ''loaded'', updatedAt := now,
                          events := events pkg @
                            [\<lparr>eventType = ''loaded'',
                              description = ''Package loaded onto vehicle '' @ v,
                              timestamp = now, eventLocation = location pkg\<rparr>]\<rparr>),
                 emittedEvents := emittedEvents m @
                   [(''package_loaded'',
                      pkg\<lparr>assignedVehicle := Some v, status := ''loaded'', updatedAt := now,
                          events := events pkg @
                            [\<lparr>eventType = ''loaded'',
                              description = ''Package loaded onto vehicle '' @ v,
                              timestamp = now, eventLocation = location pkg\<rparr>]\<rparr>)]\<rparr>))"
  by (simp add: loadPackage_def assignPackageToVehicle_def assignToVehicle_def getPackage_def
      updateStatus_valid valid_status_simps truthy_simps emitEvent_def split: option.split)

lemma run_snoc: "run wh (ops @ [(now, op)]) m = after (run wh ops m) (apply_operation wh now op (run wh ops m))"
  by (induction ops arbitrary: m) (auto simp: run.simps)

section \<open>An invariant of the package histories\<close>

lemma rank_simps:
  "rank ''received'' = 0" "rank ''stored'' = 1" "rank ''picked'' = 2" "rank ''loaded'' = 3"
  by (simp_all add: rank_def)

lemma rank_valid: "s \<in> set validStatuses \<Longrightarrow> rank s \<le> 3"
  by (auto simp: validStatuses_def rank_simps)

lemma package_inv_new: "package_inv (new_Package now k c ord its addr)"
  by (simp add: package_inv_def monotone_history_def history_ranks_def new_Package_fields
      valid_status_simps)

lemma sorted_le_last:
  fixes xs :: "nat list"
  shows "sorted xs \<Longrightarrow> y \<in> set xs \<Longrightarrow> y \<le> last xs"
  by (induction xs rule: rev_induct) (auto simp: sorted_append)

lemma package_inv_append:
  assumes "package_inv pkg" and "rank (status pkg) \<le> rank s" and "s \<in> set validStatuses"
    and "events pkg' = events pkg @ [e]" and "eventType e = s" and "status pkg' = s"
  shows "package_inv pkg'"
proof -
  let ?rs = "history_ranks pkg"
  have ne: "?rs \<noteq> []" and so: "sorted ?rs"
    using assms(1) by (simp_all add: package_inv_def monotone_history_def history_ranks_def)
  have "last ?rs = rank (status pkg)"
    using assms(1) by (simp add: package_inv_def history_ranks_def last_map)
  moreover have "y \<le> last ?rs" if "y \<in> set ?rs" for y
    using so that by (rule sorted_le_last)
  ultimately have "\<forall>y \<in> set ?rs. y \<le> rank s"
    using assms(2) by fastforce
  then have "sorted (?rs @ [rank s])" using so by (simp add: sorted_append)
  then have "monotone_history pkg'"
    by (simp add: monotone_history_def history_ranks_def assms(4,5))
  then show ?thesis by (simp add: package_inv_def assms(3-6))
qed

lemma step_preserves_inv:
  assumes inv: "manager_inv m" and g: "store_guard op m"
  shows "manager_inv (after m (apply_operation wh now op m))"
proof (cases op)
  case (Receive d)
  show ?thesis
  proof (cases "truthy (pd_packageId d) \<and> truthy (pd_clientId d)")
    case True
    then show ?thesis
      using inv Receive receivePackage_result[of d wh now m]
      by (auto simp: apply_operation_def after_def manager_inv_def package_inv_new)
  next
    case False
    then show ?thesis using inv Receive
      by (auto simp: apply_operation_def after_def receivePackage_def)
  qed
next
  case (Store k loc)
  show ?thesis
  proof (cases "packages m k")
    case None
    then show ?thesis using inv Store
      by (simp add: apply_operation_def after_def storePackage_result)
  next
    case (Some pkg)
    then have pi: "package_inv pkg" using inv by (simp add: manager_inv_def)
    have st: "status pkg = ''received'' \<or> status pkg = ''stored''"
      using g Store Some by (simp add: store_guard_def getPackage_def)
    then have r: "rank (status pkg) \<le> rank ''stored''" by (auto simp: rank_simps)
    have "package_inv (pkg\<lparr>status := ''stored'',
                          location := (if loc \<noteq> [] then Some loc else location pkg),
                          updatedAt := now,
                          events := events pkg @
                            [\<lparr>eventType = ''stored'',
                              description = ''Package stored at '' @ loc,
                              timestamp = now,
                              eventLocation = (if loc \<noteq> [] then Some loc else location pkg)\<rparr>]\<rparr>)"
      by (rule package_inv_append[OF pi r]) (simp_all add: valid_status_simps)+
    then show ?thesis using inv Store Some
      by (auto simp: apply_operation_def after_def storePackage_result manager_inv_def)
  qed
next
  case (Pick k)
  show ?thesis
  proof (cases "packages m k")
    case None
    then show ?thesis using inv Pick
      by (simp add: apply_operation_def after_def pickPackage_result)
  next
    case (Some pkg)
    then have pi: "package_inv pkg" using inv by (simp add: manager_inv_def)
    show ?thesis
    proof (cases "status pkg = ''stored''")
      case True
      then have r: "rank (status pkg) \<le> rank ''picked''" by (simp add: rank_simps)
      have "package_inv (pkg\<lparr>status := ''picked'', updatedAt := now,
                          events := events pkg @
                            [\<lparr>eventType = ''picked'',
                              description = ''Package picked for order fulfillment'',
                              timestamp = now, eventLocation = location pkg\<rparr>]\<rparr>)"
        by (rule package_inv_append[OF pi r]) (simp_all add: valid_status_simps)+
      then show ?thesis using inv Pick Some True
        by (auto simp: apply_operation_def after_def pickPackage_result manager_inv_def)
    next
      case False
      then show ?thesis using inv Pick Some
        by (simp add: apply_operation_def after_def pickPackage_result)
    qed
  qed
next
  case (Load k v)
  show ?thesis
  proof (cases "packages m k")
    case None
    then show ?thesis using inv Load
      by (simp add: apply_operation_def after_def loadPackage_result)
  next
    case (Some pkg)
    then have pi: "package_inv pkg" using inv by (simp add: manager_inv_def)
    then have r: "rank (status pkg) \<le> rank ''loaded''"
      using rank_valid[of "status pkg"] by (simp add: package_inv_def rank_simps)
    have "package_inv (pkg\<lparr>assignedVehicle := Some v, status := ''loaded'', updatedAt := now,
                          events := events pkg @
                            [\<lparr>eventType = ''loaded'',
                              description = ''Package loaded onto vehicle '' @ v,
                              timestamp = now, eventLocation = location pkg\<rparr>]\<rparr>)"
      by (rule package_inv_append[OF pi r]) (simp_all add: valid_status_simps)+
    then show ?thesis using inv Load Some
      by (auto simp: apply_operation_def after_def loadPackage_result manager_inv_def)
  qed
qed

lemma stores_in_order_Cons:
  "stores_in_order wh ((now, op) # ops) m =
     (store_guard op m \<and> stores_in_order wh ops (after m (apply_operation wh now op m)))"
  by (simp add: stores_in_order.simps)

lemma run_preserves_inv:
  "manager_inv m \<Longrightarrow> stores_in_order wh ops m \<Longrightarrow> manager_inv (run wh ops m)"
proof (induction ops arbitrary: m)
  case Nil
  then show ?case by (simp add: run.simps)
next
  case (Cons a ops)
  obtain now op where a: "a = (now, op)" by (cases a)
  from Cons.prems(2)[unfolded a stores_in_order_Cons] have g: "store_guard op m"
    and rest: "stores_in_order wh ops (after m (apply_operation wh now op m))"
    by blast+
  from Cons.IH[OF step_preserves_inv[OF Cons.prems(1) g] rest] show ?case by (simp add: a run.simps)
qed

lemma manager_inv_empty: "manager_inv empty_manager"
  by (simp add: manager_inv_def empty_manager_def)

section \<open>Responses for requests that are not pending\<close>

lemma handleStatusResponse_not_pending:
  assumes "payload_requestId (m_payload response) = Inr (Some (JStr requestId))"
    and "pendingRequests a requestId = None"
  shows "handleStatusResponse response a = Inr a"
  using assms by (simp add: handleStatusResponse_def)

section \<open>Evaluation of the examples\<close>

lemma replicate_numeral: "replicate (numeral k) x = x # replicate (pred_numeral k) x"
  by (simp add: numeral_eq_Suc)

lemma list_update_Cons_numeral: "(x # xs)[numeral v := y] = x # xs[numeral v - 1 := y]"
  by (simp add: numeral_eq_Suc)

lemma toString_example_now: "toString 1757450786892 = ''1757450786892''"
  by (simp add: toString.simps digit_char_def)

lemma stringify_example:
  \<open>stringify JSON example_payload = ''{"packageId":"PKG123","status":"received"}''\<close>
  by (simp add: JSON_def example_payload_def json_quote_def json_escape_def)

lemma parse_example:
  \<open>parse JSON ''{"packageId":"PKG123","status":"received"}'' = Some example_payload\<close>
  by (simp add: JSON_def example_payload_def parse_json_def json_ws_def unescape_def is_digit_def)

lemma char_sum_example:
  \<open>char_sum ''PKG_RCV00421757450786892{"packageId":"PKG123","status":"received"}'' = 4907\<close>
  by (simp add: char_sum_def)

lemma toString_small: "toString 7 = ''7''" "toString 42 = ''42''"
  by (simp_all add: toString.simps digit_char_def)

lemma checksum_example:
  \<open>calculateChecksum ''PKG_RCV00421757450786892{"packageId":"PKG123","status":"received"}'' = ''07''\<close>
  by (simp add: calculateChecksum_def char_sum_example padStart_def toString_small)

lemma length_stringify_example: "length (stringify JSON example_payload) = 42"
  by (simp add: stringify_example)

lemma padStart_42: "padStart 4 CHR ''0'' ''42'' = ''0042''"
  by (simp add: padStart_def replicate_numeral)

lemma createMessage_example:
  "createMessage JSON 1757450786892 ''PKG_RCV'' example_payload = example_frame"
  by (simp only: createMessage_def Let_def length_stringify_example)
     (simp add: stringify_example toString_example_now toString_small padStart_42
        checksum_example example_frame_def)

lemma nth_example_frame: "example_frame ! 38 = CHR ''P''"
  by (simp add: example_frame_def)


lemma length_json_quote: "length s \<le> length (json_quote s)"
proof -
  have "length s \<le> length (concat (map json_escape s))"
  proof (induction s)
    case Nil
    then show ?case by simp
  next
    case (Cons x xs)
    have "1 \<le> length (json_escape x)" by (simp add: json_escape_def)
    with Cons show ?case by simp
  qed
  then show ?thesis by (simp add: json_quote_def)
qed


lemma parseInt_0042: "parseInt ''0042'' = Some 42"
  using parseInt_padded[of 42 4] by (simp add: toString_small padStart_42)

lemma parseInt_example_now: "parseInt ''1757450786892'' = Some 1757450786892"
  using parseInt_toString[of 1757450786892] by (simp add: toString_example_now)

lemma corrupted_frame:
  \<open>example_frame[38 := CHR 0xB4] =
     ''PKG_RCV'' @ ''0042'' @ ''1757450786892'' @
     (''{"packageId":"'' @ [CHR 0xB4] @ ''KG123","status":"received"}'' @ ''07'')\<close>
  by (simp add: example_frame_def list_update_Cons_numeral)

lemma corrupted_checksum:
  \<open>calculateChecksum (''PKG_RCV'' @ ''0042'' @ ''1757450786892'' @
      ''{"packageId":"'' @ [CHR 0xB4] @ ''KG123","status":"received"}'') = ''07''\<close>
  by (simp add: calculateChecksum_def char_sum_def padStart_def toString_small)

lemma corrupted_parse:
  \<open>parse JSON (''{"packageId":"'' @ [CHR 0xB4] @ ''KG123","status":"received"}'') =
     Some (JObj [(''packageId'', JStr (CHR 0xB4 # ''KG123'')), (''status'', JStr ''received'')])\<close>
  by (simp add: JSON_def parse_json_def json_ws_def unescape_def is_digit_def)


lemma concat_escape_replicate:
  "json_escape c = [c] \<Longrightarrow> concat (map json_escape (replicate k c)) = replicate k c"
  by (induction k) simp_all

lemma stringify_oversize:
  \<open>stringify JSON oversize_payload = ''{"data":"'' @ replicate 9989 CHR ''a'' @ ''"}''\<close>
proof -
  have "json_escape CHR ''a'' = ''a''" by (simp add: json_escape_def)
  then have "json_quote (replicate 9989 CHR ''a'') = CHR 0x22 # replicate 9989 CHR ''a'' @ [CHR 0x22]"
    by (simp only: json_quote_def concat_escape_replicate)
  moreover have \<open>json_quote ''data'' = ''"data"''\<close> by (simp add: json_quote_def json_escape_def)
  ultimately show ?thesis by (simp add: JSON_def oversize_payload_def)
qed

lemma length_stringify_oversize: "length (stringify JSON oversize_payload) = 10000"
  by (simp add: stringify_oversize)

lemma toString_10000: "toString 10000 = ''10000''"
  by (simp add: toString.simps digit_char_def)


lemma example_chunks:
  \<open>take 30 example_frame = ''PKG_RCV00421757450786892{"pack''\<close>
  \<open>drop 30 example_frame = ''ageId":"PKG123","status":"received"}07''\<close>
  by (simp_all add: example_frame_def)

lemma trim_chunks:
  \<open>trim ''PKG_RCV00421757450786892{"pack'' = ''PKG_RCV00421757450786892{"pack''\<close>
  \<open>trim ''ageId":"PKG123","status":"received"}07'' = ''ageId":"PKG123","status":"received"}07''\<close>
  by (simp_all add: trim_def is_ws_def)

lemma parseInt_NaN_example: \<open>parseInt ''"PKG'' = None\<close>
  by (simp add: parseInt_def is_ws_def digit_val_def)

lemma chunk1_rejected:
  \<open>parseMessage JSON ''PKG_RCV00421757450786892{"pack'' = Inl InvalidChecksum\<close>
  by (rule parseMessage_reject_length)
     (simp_all add: parseInt_0042 length_substring_from js_plus_def toInteger_def)

lemma chunk2_rejected:
  \<open>parseMessage JSON ''ageId":"PKG123","status":"received"}07'' = Inl InvalidChecksum\<close>
  by (rule parseMessage_reject_length)
     (simp_all add: parseInt_NaN_example length_substring_from js_plus_def toInteger_def)

lemma take_7_createMessage:
  "length type = 7 \<Longrightarrow> take 7 (createMessage J now type p @ x) = type"
  by (simp add: createMessage_def Let_def)

lemma example_truthy:
  "truthy (pd_packageId example_data)" "truthy (pd_clientId example_data)"
  by (simp_all add: example_data_def truthy_simps)

lemmas engine_eval =
  run.simps stores_in_order.simps apply_operation_def after_def receivePackage_result[OF example_truthy] storePackage_result
  pickPackage_result loadPackage_result new_Package_fields empty_manager_def store_guard_def

lemma example_stored_status:
  "map_option status
     (packages (run wh [(1000, Receive example_data), (2000, Store ''PKG001'' ''A1'')] empty_manager)
        ''PKG001'') = Some ''stored''"
  by (simp add: engine_eval) (simp add: example_data_def)

lemma example_after_receive:
  "packages (run wh [(1000, Receive example_data)] empty_manager) ''PKG001'' =
     Some (new_Package 1000 ''PKG001'' ''C1'' (Some ''O1'') [''a'', ''b''] (Some ''Addr''))"
  by (simp add: engine_eval) (simp add: example_data_def)

lemma example_after_store:
  "map_option status
     (packages (run wh [(1000, Receive example_data), (2000, Store ''PKG001'' ''A1'')] empty_manager)
        ''PKG001'') = Some ''stored''"
  by (simp add: engine_eval) (simp add: example_data_def)

lemma parse_example_frame:
  "parseMessage JSON example_frame =
     Inr \<lparr>m_type = ''PKG_RCV'', m_timestamp = Some 1757450786892,
          m_payload = example_payload, m_raw = example_frame\<rparr>"
proof -
  have "parseMessage JSON (createMessage JSON 1757450786892 ''PKG_RCV'' example_payload) =
     Inr \<lparr>m_type = ''PKG_RCV'', m_timestamp = Some (int 1757450786892),
          m_payload = example_payload,
          m_raw = createMessage JSON 1757450786892 ''PKG_RCV'' example_payload\<rparr>"
    by (rule parseMessage_createMessage)
       (simp_all add: length_stringify_example stringify_example parse_example)
  then show ?thesis by (simp add: createMessage_example)
qed

lemma example_frame_ends:
  "example_frame \<noteq> []" "\<not> is_ws (hd example_frame)" "\<not> is_ws (last example_frame)"
  "CHR 0x0A \<notin> set example_frame"
  by (simp_all add: example_frame_def is_ws_def)

lemma example_lines:
  "filter (\<lambda>line. line \<noteq> []) (split_nl (trim (example_frame @ CHR 0x0A # ''not a frame'')))
     = [example_frame, ''not a frame'']"
proof -
  have "trim (example_frame @ CHR 0x0A # ''not a frame'') = example_frame @ CHR 0x0A # ''not a frame''"
    using example_frame_ends by (intro trim_id) (simp_all add: is_ws_def)
  moreover have "split_nl (example_frame @ CHR 0x0A # ''not a frame'') = [example_frame, ''not a frame'']"
    using example_frame_ends(4) by (simp add: split_nl_append_newline)
  ultimately show ?thesis using example_frame_ends(1) by simp
qed

lemma not_a_frame:
  "trim ''not a frame'' = ''not a frame''" "parseMessage JSON ''not a frame'' = Inl TooShort"
  by (simp_all add: trim_def is_ws_def parseMessage_def)


section \<open>Frame codec: round trip\<close>

text \<open>
  C1 (amended). For every type code of \<open>MESSAGE_TYPES\<close>, every 13-digit clock reading and
  every payload whose serialization has at most 9999 characters and is read back by
  \<open>JSON.parse\<close>, \<open>parseMessage\<close> applied to the frame built by \<open>createMessage\<close>
  succeeds and returns that type, that clock reading and that payload.
\<close>

theorem roundtrip:
  assumes "type \<in> set MESSAGE_TYPES"
    and "10 ^ 12 \<le> now" "now < 10 ^ 13"
    and "length (stringify J p) \<le> 9999"
    and "parse J (stringify J p) = Some p"
  shows "parseMessage J (createMessage J now type p) =
           Inr \<lparr>m_type = type, m_timestamp = Some (int now), m_payload = p,
                m_raw = createMessage J now type p\<rparr>"
  using assms(2-5) by (rule parseMessage_createMessage[OF MESSAGE_TYPES_length[OF assms(1)]])


theorem roundtrip_witness:
  "''PKG_RCV'' \<in> set MESSAGE_TYPES \<and> length (stringify JSON example_payload) \<le> 9999
   \<and> parse JSON (stringify JSON example_payload) = Some example_payload
   \<and> parseMessage JSON (createMessage JSON 1757450786892 ''PKG_RCV'' example_payload) =
         Inr \<lparr>m_type = ''PKG_RCV'', m_timestamp = Some 1757450786892,
              m_payload = example_payload, m_raw = example_frame\<rparr>"
proof -
  have a: "''PKG_RCV'' \<in> set MESSAGE_TYPES" by (simp add: MESSAGE_TYPES_def)
  have b: "length (stringify JSON example_payload) \<le> 9999"
    by (simp add: length_stringify_example)
  have c: "parse JSON (stringify JSON example_payload) = Some example_payload"
    by (simp add: stringify_example parse_example)
  have "(10::nat) ^ 12 \<le> 1757450786892" "(1757450786892::nat) < 10 ^ 13" by simp_all
  from roundtrip[OF a this b c] a b c show ?thesis
    by (simp add: createMessage_example)
qed


text \<open>
  As stated for every payload the round trip fails: a payload whose serialization has more
  than 9999 characters gets a five-digit length field, and \<open>parseMessage\<close> rejects the frame.
\<close>

theorem roundtrip_counterexample:
  "parseMessage JSON
     (createMessage JSON 1757450786892 ''STS_RSP''
        (JObj [(''data'', JStr (replicate 10000 CHR ''x''))]))
   = Inl InvalidChecksum"
proof -
  have "10000 \<le> length (json_quote (replicate 10000 CHR ''x''))"
    using length_json_quote[of "replicate 10000 CHR ''x''"] by simp
  then have "10000 \<le> length (stringify JSON (JObj [(''data'', JStr (replicate 10000 CHR ''x''))]))"
    by (simp add: JSON_def)
  then show ?thesis by (intro oversize_rejected) simp_all
qed


section \<open>Frame codec: corrupted frames\<close>

text \<open>
  C2 (amended). For a frame built by \<open>createMessage\<close> (type code of \<open>MESSAGE_TYPES\<close>, 13-digit
  clock reading, serialization of at most 9999 characters), replacing the character at any
  position of the header or payload by one whose code differs from the old code modulo 100
  makes \<open>parseMessage\<close> return \<open>null\<close> through its checksum test.
\<close>

theorem corruption_rejected:
  assumes ty: "type \<in> set MESSAGE_TYPES"
    and now: "10 ^ 12 \<le> now" "now < 10 ^ 13"
    and len: "length (stringify J p) \<le> 9999"
    and i: "i < length (createMessage J now type p) - 2"
    and c: "(of_char c :: nat) mod 100 \<noteq> of_char (createMessage J now type p ! i) mod 100"
  shows "parseMessage J ((createMessage J now type p)[i := c]) = Inl InvalidChecksum"
proof -
  define js where "js = stringify J p"
  define n where "n = length js"
  define body where "body = type @ padStart 4 CHR ''0'' (toString n) @ toString now @ js"
  define ck where "ck = calculateChecksum body"
  have frame: "createMessage J now type p = body @ ck"
    by (simp add: createMessage_body body_def ck_def js_def n_def)
  have lb: "length body = 24 + n"
    using MESSAGE_TYPES_length[OF ty] length_padStart_4[of n] length_toString_13[OF now] len
    by (simp add: body_def n_def js_def)
  have lck: "length ck = 2" by (simp add: ck_def length_calculateChecksum)
  have i': "i < length body" using i lck by (simp add: frame)
  define raw where "raw = body[i := c] @ ck"
  have raw: "(createMessage J now type p)[i := c] = raw"
    using i' by (simp add: frame raw_def list_update_append1)
  have lraw: "length raw = 26 + n" by (simp add: raw_def lb lck)
  have old: "createMessage J now type p ! i = body ! i"
    using i' by (simp add: frame nth_append)
  have neq: "calculateChecksum (body[i := c]) \<noteq> ck"
    unfolding ck_def using i' c by (intro checksum_update_neq) (simp_all add: old)
  show ?thesis
  proof (cases "parseInt (take 4 (drop 7 raw)) = Some (int n)")
    case True
    have "drop (24 + n) raw = ck" by (simp add: raw_def lb)
    moreover have "take (24 + n) raw = body[i := c]" by (simp add: raw_def lb)
    ultimately show ?thesis
      unfolding raw using neq lraw by (subst parseMessage_raw[OF _ True]) auto
  next
    case False
    have "length (substring_from raw (js_plus 24 (parseInt (take 4 (drop 7 raw))))) \<noteq> 2"
    proof (cases "parseInt (take 4 (drop 7 raw))")
      case None
      then show ?thesis by (simp add: length_substring_from js_plus_def toInteger_def lraw)
    next
      case (Some z)
      with False have "z \<noteq> int n" by simp
      then have "min (max (24 + z) 0) (26 + int n) \<noteq> 24 + int n" by linarith
      then show ?thesis
        using Some by (simp add: length_substring_from js_plus_def toInteger_def lraw)
    qed
    then show ?thesis
      unfolding raw using lraw by (intro parseMessage_reject_length) simp_all
  qed
qed



theorem corruption_rejected_witness:
  "parseMessage JSON ((createMessage JSON 1757450786892 ''PKG_RCV'' example_payload)[38 := CHR ''Q''])
     = Inl InvalidChecksum"
proof -
  have a: "''PKG_RCV'' \<in> set MESSAGE_TYPES" by (simp add: MESSAGE_TYPES_def)
  have b: "length (stringify JSON example_payload) \<le> 9999"
    by (simp add: length_stringify_example)
  have n: "(10::nat) ^ 12 \<le> 1757450786892" "(1757450786892::nat) < 10 ^ 13" by simp_all
  have i: "38 < length (createMessage JSON 1757450786892 ''PKG_RCV'' example_payload) - 2"
    by (simp add: createMessage_example example_frame_def)
  have c: "(of_char CHR ''Q'' :: nat) mod 100 \<noteq>
           of_char (createMessage JSON 1757450786892 ''PKG_RCV'' example_payload ! 38) mod 100"
    by (simp add: createMessage_example nth_example_frame)
  show ?thesis by (rule corruption_rejected[OF a n b i c])
qed

text \<open>
  A replacement that keeps the code modulo 100 passes the checksum test: changing the
  \<open>P\<close> (code 80) of the package id into the character with code 180 yields a frame that
  \<open>parseMessage\<close> accepts, with a payload that differs from the one sent.
\<close>

theorem corruption_counterexample:
  "parseMessage JSON ((createMessage JSON 1757450786892 ''PKG_RCV'' example_payload)[38 := CHR 0xB4])
     = Inr \<lparr>m_type = ''PKG_RCV'', m_timestamp = Some 1757450786892,
            m_payload = JObj [(''packageId'', JStr (CHR 0xB4 # ''KG123'')),
                              (''status'', JStr ''received'')],
            m_raw = example_frame[38 := CHR 0xB4]\<rparr>"
proof -
  have k: "parseInt ''0042'' = Some (int 42)" by (simp add: parseInt_0042)
  have r: \<open>2 \<le> length (''{"packageId":"'' @ [CHR 0xB4] @ ''KG123","status":"received"}'' @ ''07'')\<close>
    by simp
  have t: \<open>take 42 (''{"packageId":"'' @ [CHR 0xB4] @ ''KG123","status":"received"}'' @ ''07'')
            = ''{"packageId":"'' @ [CHR 0xB4] @ ''KG123","status":"received"}''\<close>
    by simp
  have d: \<open>drop 42 (''{"packageId":"'' @ [CHR 0xB4] @ ''KG123","status":"received"}'' @ ''07'') = ''07''\<close>
    by simp
  show ?thesis
    unfolding createMessage_example corrupted_frame
    by (subst parseMessage_frame[OF _ _ _ r k])
       (simp_all only: t d corrupted_checksum corrupted_parse parseInt_example_now, simp_all)
qed


section \<open>Frame codec: payloads of more than 9999 characters\<close>

text \<open>
  C7. \<open>createMessage\<close> has no error path. For the payload \<open>oversize_payload\<close>, whose
  serialization has 10000 characters, it returns a frame whose four-character length field
  reads \<open>1000\<close>, and \<open>parseMessage\<close> rejects that frame.
\<close>

theorem oversize_frame:
  "length (stringify JSON oversize_payload) = 10000
   \<and> take 11 (createMessage JSON 1757450786892 ''PKG_RCV'' oversize_payload) = ''PKG_RCV1000''
   \<and> parseMessage JSON (createMessage JSON 1757450786892 ''PKG_RCV'' oversize_payload)
       = Inl InvalidChecksum"
proof -
  have a: "take 11 (createMessage JSON 1757450786892 ''PKG_RCV'' oversize_payload) = ''PKG_RCV1000''"
    by (simp only: createMessage_def Let_def length_stringify_oversize toString_10000)
       (simp add: padStart_def)
  have b: "parseMessage JSON (createMessage JSON 1757450786892 ''PKG_RCV'' oversize_payload)
             = Inl InvalidChecksum"
    by (intro oversize_rejected) (simp_all add: length_stringify_oversize)
  from a b show ?thesis by (simp add: length_stringify_oversize)
qed


section \<open>Hub: handling of incoming data\<close>

text \<open>
  C8 (amended). \<open>handleClientData\<close> keeps no buffer between calls; each read is handled on
  its own: it is trimmed and split at newline characters, and every non-empty line is
  handled in order. A line that decodes is answered with an \<open>ACK_MSG\<close> frame and emitted as a
  \<open>'message'\<close> event; a line that fails to decode is answered with an \<open>ERR_MSG\<close> frame and
  nothing is emitted for it. In particular:

    \<^item> a read whose trimmed text is one line that fails to decode yields one \<open>ERR_MSG\<close>
      reply, and the hub is otherwise unchanged;

    \<^item> a read that holds one or more whole well-formed frames separated by newlines, with
      or without a newline after the last one, yields one \<open>ACK_MSG\<close> reply and one emitted
      message for each frame, in the order of the frames;

    \<^item> when a well-formed frame is split into two non-empty chunks, the read of the first
      chunk is a decode failure: it is answered with an \<open>ERR_MSG\<close> frame, nothing is emitted,
      and the hub is otherwise unchanged, so the chunk is not retained.

  (The write to the socket of the sender does not throw; for the frames of the last two
  items the serialized payload holds no newline character, as \<open>JSON.stringify\<close> writes
  none.)
\<close>

theorem handleClientData_per_read:
  assumes ok: "client \<notin> failing h"
  shows "handleClientData J now h client data =
           h\<lparr>wire := (wire h)(client := wire h client @
                map (\<lambda>line. (case parseMessage J line of
                                Inl e \<Rightarrow> createMessage J now ''ERR_MSG''
                                           (JObj [(''error'', JStr ''Invalid message format''),
                                                  (''timestamp'', JNum (int now))])
                              | Inr message \<Rightarrow> createMessage J now ''ACK_MSG''
                                           (JObj [(''originalType'', JStr (m_type message)),
                                                  (''timestamp'', JNum (int now))]))
                             @ [CHR 0x0A])
                    (filter (\<lambda>line. line \<noteq> []) (split_nl (trim data)))),
             emitted := emitted h @
                concat (map (\<lambda>line. case parseMessage J line of
                                       Inl e \<Rightarrow> [] | Inr message \<Rightarrow> [(client, message)])
                          (filter (\<lambda>line. line \<noteq> []) (split_nl (trim data))))\<rparr>
       \<and> (trim bad \<noteq> [] \<and> CHR 0x0A \<notin> set (trim bad) \<and> parseMessage J (trim bad) = Inl e \<longrightarrow>
            handleClientData J now h client bad =
              h\<lparr>wire := (wire h)(client := wire h client @
                   [createMessage J now ''ERR_MSG''
                      (JObj [(''error'', JStr ''Invalid message format''),
                             (''timestamp'', JNum (int now))])
                    @ [CHR 0x0A]])\<rparr>)
       \<and> (fs \<noteq> []
            \<and> (\<forall>(sentAt, type, p) \<in> set fs.
                   type \<in> set MESSAGE_TYPES \<and> 10 ^ 12 \<le> sentAt \<and> sentAt < 10 ^ 13
                   \<and> length (stringify J p) \<le> 9999 \<and> parse J (stringify J p) = Some p
                   \<and> CHR 0x0A \<notin> set (stringify J p))
            \<and> (whole = join [CHR 0x0A] (map (\<lambda>(sentAt, type, p). createMessage J sentAt type p) fs)
                 \<or> whole = join [CHR 0x0A] (map (\<lambda>(sentAt, type, p). createMessage J sentAt type p) fs)
                            @ [CHR 0x0A]) \<longrightarrow>
            handleClientData J now h client whole =
              h\<lparr>wire := (wire h)(client := wire h client @
                   map (\<lambda>(sentAt, type, p).
                          createMessage J now ''ACK_MSG''
                            (JObj [(''originalType'', JStr type), (''timestamp'', JNum (int now))])
                          @ [CHR 0x0A]) fs),
                emitted := emitted h @
                   map (\<lambda>(sentAt, type, p).
                          (client, \<lparr>m_type = type, m_timestamp = Some (int sentAt), m_payload = p,
                                    m_raw = createMessage J sentAt type p\<rparr>)) fs\<rparr>)
       \<and> (type \<in> set MESSAGE_TYPES \<and> 10 ^ 12 \<le> sentAt \<and> sentAt < 10 ^ 13
            \<and> length (stringify J p) \<le> 9999 \<and> CHR 0x0A \<notin> set (stringify J p)
            \<and> createMessage J sentAt type p = f1 @ f2 \<and> f1 \<noteq> [] \<and> f2 \<noteq> [] \<longrightarrow>
            handleClientData J now h client f1 =
              h\<lparr>wire := (wire h)(client := wire h client @
                   [createMessage J now ''ERR_MSG''
                      (JObj [(''error'', JStr ''Invalid message format''),
                             (''timestamp'', JNum (int now))])
                    @ [CHR 0x0A]])\<rparr>)"
proof (intro conjI impI)
  show "handleClientData J now h client data =
           h\<lparr>wire := (wire h)(client := wire h client @
                map (\<lambda>line. (case parseMessage J line of
                                Inl e \<Rightarrow> createMessage J now ''ERR_MSG''
                                           (JObj [(''error'', JStr ''Invalid message format''),
                                                  (''timestamp'', JNum (int now))])
                              | Inr message \<Rightarrow> createMessage J now ''ACK_MSG''
                                           (JObj [(''originalType'', JStr (m_type message)),
                                                  (''timestamp'', JNum (int now))]))
                             @ [CHR 0x0A])
                    (filter (\<lambda>line. line \<noteq> []) (split_nl (trim data)))),
             emitted := emitted h @
                concat (map (\<lambda>line. case parseMessage J line of
                                       Inl e \<Rightarrow> [] | Inr message \<Rightarrow> [(client, message)])
                          (filter (\<lambda>line. line \<noteq> []) (split_nl (trim data))))\<rparr>"
    by (rule handleClientData_lines[OF ok])
next
  assume "trim bad \<noteq> [] \<and> CHR 0x0A \<notin> set (trim bad) \<and> parseMessage J (trim bad) = Inl e"
  then show "handleClientData J now h client bad =
              h\<lparr>wire := (wire h)(client := wire h client @
                   [createMessage J now ''ERR_MSG''
                      (JObj [(''error'', JStr ''Invalid message format''),
                             (''timestamp'', JNum (int now))])
                    @ [CHR 0x0A]])\<rparr>"
    using handleClientData_rejected[OF refl, of bad J e client h now] ok by blast
next
  assume a: "fs \<noteq> []
            \<and> (\<forall>(sentAt, type, p) \<in> set fs.
                   type \<in> set MESSAGE_TYPES \<and> 10 ^ 12 \<le> sentAt \<and> sentAt < 10 ^ 13
                   \<and> length (stringify J p) \<le> 9999 \<and> parse J (stringify J p) = Some p
                   \<and> CHR 0x0A \<notin> set (stringify J p))
            \<and> (whole = join [CHR 0x0A] (map (\<lambda>(sentAt, type, p). createMessage J sentAt type p) fs)
                 \<or> whole = join [CHR 0x0A] (map (\<lambda>(sentAt, type, p). createMessage J sentAt type p) fs)
                            @ [CHR 0x0A])"
  show "handleClientData J now h client whole =
              h\<lparr>wire := (wire h)(client := wire h client @
                   map (\<lambda>(sentAt, type, p).
                          createMessage J now ''ACK_MSG''
                            (JObj [(''originalType'', JStr type), (''timestamp'', JNum (int now))])
                          @ [CHR 0x0A]) fs),
                emitted := emitted h @
                   map (\<lambda>(sentAt, type, p).
                          (client, \<lparr>m_type = type, m_timestamp = Some (int sentAt), m_payload = p,
                                    m_raw = createMessage J sentAt type p\<rparr>)) fs\<rparr>"
    by (rule handleClientData_frames[OF ok a[THEN conjunct1] a[THEN conjunct2, THEN conjunct1]
              a[THEN conjunct2, THEN conjunct2]])
next
  assume a: "type \<in> set MESSAGE_TYPES \<and> 10 ^ 12 \<le> sentAt \<and> sentAt < 10 ^ 13
            \<and> length (stringify J p) \<le> 9999 \<and> CHR 0x0A \<notin> set (stringify J p)
            \<and> createMessage J sentAt type p = f1 @ f2 \<and> f1 \<noteq> [] \<and> f2 \<noteq> []"
  then show "handleClientData J now h client f1 =
              h\<lparr>wire := (wire h)(client := wire h client @
                   [createMessage J now ''ERR_MSG''
                      (JObj [(''error'', JStr ''Invalid message format''),
                             (''timestamp'', JNum (int now))])
                    @ [CHR 0x0A]])\<rparr>"
    by (intro handleClientData_first_chunk[OF ok, of type sentAt J p f1 f2]) simp_all
qed

theorem handleClientData_per_read_witness:
  "handleClientData JSON 1757450787000 example_hub 1 (example_frame @ CHR 0x0A # ''not a frame'') =
     example_hub\<lparr>wire := (wire example_hub)(1 :=
          [createMessage JSON 1757450787000 ''ACK_MSG''
             (JObj [(''originalType'', JStr ''PKG_RCV''), (''timestamp'', JNum 1757450787000)])
           @ [CHR 0x0A],
           createMessage JSON 1757450787000 ''ERR_MSG''
             (JObj [(''error'', JStr ''Invalid message format''), (''timestamp'', JNum 1757450787000)])
           @ [CHR 0x0A]]),
        emitted := [(1, \<lparr>m_type = ''PKG_RCV'', m_timestamp = Some 1757450786892,
                         m_payload = example_payload, m_raw = example_frame\<rparr>)]\<rparr>
   \<and> handleClientData JSON 1757450787000 example_hub 1 ''not a frame'' =
     example_hub\<lparr>wire := (wire example_hub)(1 :=
          [createMessage JSON 1757450787000 ''ERR_MSG''
             (JObj [(''error'', JStr ''Invalid message format''), (''timestamp'', JNum 1757450787000)])
           @ [CHR 0x0A]])\<rparr>
   \<and> handleClientData JSON 1757450787000 example_hub 1 example_frame =
     example_hub\<lparr>wire := (wire example_hub)(1 :=
          [createMessage JSON 1757450787000 ''ACK_MSG''
             (JObj [(''originalType'', JStr ''PKG_RCV''), (''timestamp'', JNum 1757450787000)])
           @ [CHR 0x0A]]),
        emitted := [(1, \<lparr>m_type = ''PKG_RCV'', m_timestamp = Some 1757450786892,
                         m_payload = example_payload, m_raw = example_frame\<rparr>)]\<rparr>
   \<and> handleClientData JSON 1757450787000 example_hub 1
       (example_frame @ CHR 0x0A # example_frame @ [CHR 0x0A]) =
     example_hub\<lparr>wire := (wire example_hub)(1 :=
          [createMessage JSON 1757450787000 ''ACK_MSG''
             (JObj [(''originalType'', JStr ''PKG_RCV''), (''timestamp'', JNum 1757450787000)])
           @ [CHR 0x0A],
           createMessage JSON 1757450787000 ''ACK_MSG''
             (JObj [(''originalType'', JStr ''PKG_RCV''), (''timestamp'', JNum 1757450787000)])
           @ [CHR 0x0A]]),
        emitted := [(1, \<lparr>m_type = ''PKG_RCV'', m_timestamp = Some 1757450786892,
                         m_payload = example_payload, m_raw = example_frame\<rparr>),
                    (1, \<lparr>m_type = ''PKG_RCV'', m_timestamp = Some 1757450786892,
                         m_payload = example_payload, m_raw = example_frame\<rparr>)]\<rparr>
   \<and> handleClientData JSON 1757450787000 example_hub 1 (take 30 example_frame) =
     example_hub\<lparr>wire := (wire example_hub)(1 :=
          [createMessage JSON 1757450787000 ''ERR_MSG''
             (JObj [(''error'', JStr ''Invalid message format''), (''timestamp'', JNum 1757450787000)])
           @ [CHR 0x0A]])\<rparr>"
proof -
  have ok: "1 \<notin> failing example_hub" by (simp add: example_hub_def)
  have v: "''PKG_RCV'' \<in> set MESSAGE_TYPES \<and> (10::nat) ^ 12 \<le> 1757450786892
           \<and> (1757450786892::nat) < 10 ^ 13
           \<and> length (stringify JSON example_payload) \<le> 9999
           \<and> parse JSON (stringify JSON example_payload) = Some example_payload
           \<and> CHR 0x0A \<notin> set (stringify JSON example_payload)"
    by (simp add: MESSAGE_TYPES_def length_stringify_example)
       (simp add: stringify_example parse_example)
  note T = handleClientData_per_read[OF ok, where J = JSON and now = 1757450787000]
  have A: "handleClientData JSON 1757450787000 example_hub 1
             (example_frame @ CHR 0x0A # ''not a frame'') =
     example_hub\<lparr>wire := (wire example_hub)(1 :=
          [createMessage JSON 1757450787000 ''ACK_MSG''
             (JObj [(''originalType'', JStr ''PKG_RCV''), (''timestamp'', JNum 1757450787000)])
           @ [CHR 0x0A],
           createMessage JSON 1757450787000 ''ERR_MSG''
             (JObj [(''error'', JStr ''Invalid message format''), (''timestamp'', JNum 1757450787000)])
           @ [CHR 0x0A]]),
        emitted := [(1, \<lparr>m_type = ''PKG_RCV'', m_timestamp = Some 1757450786892,
                         m_payload = example_payload, m_raw = example_frame\<rparr>)]\<rparr>"
    by (simp only: T[where data = "example_frame @ CHR 0x0A # ''not a frame''", THEN conjunct1]
          example_lines)
       (simp add: parse_example_frame not_a_frame example_hub_def)
  have B: "handleClientData JSON 1757450787000 example_hub 1 ''not a frame'' =
     example_hub\<lparr>wire := (wire example_hub)(1 :=
          [createMessage JSON 1757450787000 ''ERR_MSG''
             (JObj [(''error'', JStr ''Invalid message format''), (''timestamp'', JNum 1757450787000)])
           @ [CHR 0x0A]])\<rparr>"
    using T[where bad = "''not a frame''" and e = TooShort, THEN conjunct2, THEN conjunct1]
    by (simp add: not_a_frame example_hub_def)
  have C1: "handleClientData JSON 1757450787000 example_hub 1 example_frame =
     example_hub\<lparr>wire := (wire example_hub)(1 :=
          [createMessage JSON 1757450787000 ''ACK_MSG''
             (JObj [(''originalType'', JStr ''PKG_RCV''), (''timestamp'', JNum 1757450787000)])
           @ [CHR 0x0A]]),
        emitted := [(1, \<lparr>m_type = ''PKG_RCV'', m_timestamp = Some 1757450786892,
                         m_payload = example_payload, m_raw = example_frame\<rparr>)]\<rparr>"
    using T[where fs = "[(1757450786892, ''PKG_RCV'', example_payload)]" and whole = example_frame,
            THEN conjunct2, THEN conjunct2, THEN conjunct1] v
    by (simp add: createMessage_example example_hub_def)
  have C2: "handleClientData JSON 1757450787000 example_hub 1
       (example_frame @ CHR 0x0A # example_frame @ [CHR 0x0A]) =
     example_hub\<lparr>wire := (wire example_hub)(1 :=
          [createMessage JSON 1757450787000 ''ACK_MSG''
             (JObj [(''originalType'', JStr ''PKG_RCV''), (''timestamp'', JNum 1757450787000)])
           @ [CHR 0x0A],
           createMessage JSON 1757450787000 ''ACK_MSG''
             (JObj [(''originalType'', JStr ''PKG_RCV''), (''timestamp'', JNum 1757450787000)])
           @ [CHR 0x0A]]),
        emitted := [(1, \<lparr>m_type = ''PKG_RCV'', m_timestamp = Some 1757450786892,
                         m_payload = example_payload, m_raw = example_frame\<rparr>),
                    (1, \<lparr>m_type = ''PKG_RCV'', m_timestamp = Some 1757450786892,
                         m_payload = example_payload, m_raw = example_frame\<rparr>)]\<rparr>"
    using T[where fs = "[(1757450786892, ''PKG_RCV'', example_payload),
                         (1757450786892, ''PKG_RCV'', example_payload)]"
              and whole = "example_frame @ CHR 0x0A # example_frame @ [CHR 0x0A]",
            THEN conjunct2, THEN conjunct2, THEN conjunct1] v
    by (simp add: createMessage_example example_hub_def)
  have s: "createMessage JSON 1757450786892 ''PKG_RCV'' example_payload =
             take 30 example_frame @ drop 30 example_frame
           \<and> take 30 example_frame \<noteq> [] \<and> drop 30 example_frame \<noteq> []"
    by (simp add: createMessage_example) (simp add: example_frame_def)
  have D: "handleClientData JSON 1757450787000 example_hub 1 (take 30 example_frame) =
     example_hub\<lparr>wire := (wire example_hub)(1 :=
          [createMessage JSON 1757450787000 ''ERR_MSG''
             (JObj [(''error'', JStr ''Invalid message format''), (''timestamp'', JNum 1757450787000)])
           @ [CHR 0x0A]])\<rparr>"
    using T[where type = "''PKG_RCV''" and sentAt = 1757450786892 and p = example_payload
              and ?f1.0 = "take 30 example_frame" and ?f2.0 = "drop 30 example_frame",
            THEN conjunct2, THEN conjunct2, THEN conjunct2] v s
    by (simp add: example_hub_def)
  from A B C1 C2 D show ?thesis by blast
qed

text \<open>
  With a buffer the two reads below would yield one \<open>ACK_MSG\<close> and one emitted message;
  the code answers each of them with \<open>ERR_MSG\<close> and emits nothing.
\<close>

theorem handleClientData_counterexample:
  "createMessage JSON 1757450786892 ''PKG_RCV'' example_payload =
     take 30 example_frame @ drop 30 example_frame
   \<and> emitted (handleClientData JSON 1757450787000
               (handleClientData JSON 1757450787000 example_hub 1 (take 30 example_frame))
               1 (drop 30 example_frame)) = []
   \<and> map (take 7)
       (wire (handleClientData JSON 1757450787000
               (handleClientData JSON 1757450787000 example_hub 1 (take 30 example_frame))
               1 (drop 30 example_frame)) 1) = [''ERR_MSG'', ''ERR_MSG'']"
proof -
  define err where "err = createMessage JSON 1757450787000 ''ERR_MSG''
      (JObj [(''error'', JStr ''Invalid message format''), (''timestamp'', JNum (int 1757450787000))])"
  have ok: "1 \<notin> failing example_hub" by (simp add: example_hub_def)
  have h1: "handleClientData JSON 1757450787000 example_hub 1 (take 30 example_frame) =
              example_hub\<lparr>wire := (wire example_hub)(1 := wire example_hub 1 @ [err @ [CHR 0x0A]])\<rparr>"
    unfolding example_chunks err_def
    by (rule handleClientData_rejected[OF trim_chunks(1) _ _ chunk1_rejected ok]) simp_all
  have ok': "1 \<notin> failing (example_hub\<lparr>wire := (wire example_hub)(1 := wire example_hub 1 @ [err @ [CHR 0x0A]])\<rparr>)"
    by (simp add: example_hub_def)
  have h2: "handleClientData JSON 1757450787000
              (example_hub\<lparr>wire := (wire example_hub)(1 := wire example_hub 1 @ [err @ [CHR 0x0A]])\<rparr>)
              1 (drop 30 example_frame) =
            example_hub\<lparr>wire := (wire example_hub)(1 := wire example_hub 1 @ [err @ [CHR 0x0A]] @ [err @ [CHR 0x0A]])\<rparr>"
    unfolding example_chunks err_def
    by (subst handleClientData_rejected[OF trim_chunks(2) _ _ chunk2_rejected ok'[unfolded err_def]])
       simp_all
  have t: "take 7 (err @ [CHR 0x0A]) = ''ERR_MSG''"
    unfolding err_def by (rule take_7_createMessage) simp
  show ?thesis
    unfolding h1 h2 using t by (simp add: example_hub_def createMessage_example)
qed

section \<open>Hub: what is written to a socket\<close>

text \<open>
  C10. Whatever \<open>sendToClient\<close> and \<open>broadcast\<close> write to a socket is the frame built by
  \<open>createMessage\<close> followed by one newline character: \<open>sendToClient\<close> appends exactly that
  string to the log of its socket (when the write does not throw) and nothing to any other,
  \<open>broadcast\<close> appends it once to the log of every registered socket whose write does not
  throw and nothing to any other.
\<close>

theorem hub_writes_frame_and_newline:
  assumes "distinct (clients h)"
  shows "wire (sendToClient J now h c type payload) c' =
           wire h c' @ (if c' = c \<and> c \<notin> failing h
                        then [createMessage J now type payload @ [CHR 0x0A]] else [])
       \<and> wire (broadcast J now h type payload) c' =
           wire h c' @ (if c' \<in> set (clients h) \<and> c' \<notin> failing h
                        then [createMessage J now type payload @ [CHR 0x0A]] else [])"
  using assms
  by (simp add: sendToClient_def broadcast_def wire_write_or_delete wire_foldl_write_or_delete)

theorem hub_writes_frame_and_newline_witness:
  "distinct (clients example_hub)
   \<and> wire (sendToClient JSON 1757450786892 example_hub 1 ''PKG_RCV'' example_payload) 1 =
       [example_frame @ [CHR 0x0A]]
   \<and> wire (broadcast JSON 1757450786892 example_hub ''PKG_RCV'' example_payload) 2 =
       [example_frame @ [CHR 0x0A]]"
proof -
  have d: "distinct (clients example_hub)" by (simp add: example_hub_def)
  from hub_writes_frame_and_newline[OF d, of JSON 1757450786892 1 "''PKG_RCV''" example_payload 1]
       hub_writes_frame_and_newline[OF d, of JSON 1757450786892 1 "''PKG_RCV''" example_payload 2]
       d
  show ?thesis by (simp add: createMessage_example example_hub_def)
qed


section \<open>Engine: receiving a package\<close>

text \<open>
  C3 (amended). \<open>receivePackage\<close> has no duplicate check. For every state of the package
  store and every package data with a non-empty package id and client id, whether or not
  the id is already present, it resolves with a receipt for the id and stores under that
  id a new package in status received whose history is exactly the one seed event; a
  package already stored under the id is replaced, every other package is unchanged.
\<close>

theorem receivePackage_replaces:
  assumes "truthy (pd_packageId d)" and "truthy (pd_clientId d)"
  shows "\<exists>resp m' pkg.
           receivePackage wh now d m = Inr (resp, m')
         \<and> resp = JObj [(''status'', JStr ''received''),
                        (''packageId'', JStr (the (pd_packageId d))),
                        (''warehouse'', JStr wh),
                        (''receiptTime'', JNum (int now)),
                        (''nextStep'', JStr ''storage_assignment'')]
         \<and> packages m' (the (pd_packageId d)) = Some pkg
         \<and> packageId pkg = the (pd_packageId d)
         \<and> status pkg = ''received''
         \<and> events pkg = [\<lparr>eventType = ''received'',
                            description = ''Package received from client'',
                            timestamp = now, eventLocation = None\<rparr>]
         \<and> (\<forall>k. k \<noteq> the (pd_packageId d) \<longrightarrow> packages m' k = packages m k)"
  by (simp add: receivePackage_result[OF assms] new_Package_fields)

theorem receivePackage_replaces_witness:
  "truthy (pd_packageId example_data) \<and> truthy (pd_clientId example_data)
   \<and> map_option status
        (packages (after empty_manager (receivePackage ''Main Warehouse'' 1000 example_data empty_manager))
           ''PKG001'') = Some ''received''
   \<and> map_option (\<lambda>pkg. length (events pkg))
        (packages (after empty_manager (receivePackage ''Main Warehouse'' 1000 example_data empty_manager))
           ''PKG001'') = Some 1"
proof -
  have a: "truthy (pd_packageId example_data)" and b: "truthy (pd_clientId example_data)"
    by (simp_all add: example_data_def truthy_simps)
  from receivePackage_replaces[OF a b, of "''Main Warehouse''" 1000 empty_manager]
  obtain resp m' pkg where
    r: "receivePackage ''Main Warehouse'' 1000 example_data empty_manager = Inr (resp, m')"
    and p: "packages m' (the (pd_packageId example_data)) = Some pkg"
    and s: "status pkg = ''received''"
    and e: "events pkg = [\<lparr>eventType = ''received'',
                            description = ''Package received from client'',
                            timestamp = 1000, eventLocation = None\<rparr>]"
    by blast
  from p have p': "packages m' ''PKG001'' = Some pkg" by (simp add: example_data_def)
  show ?thesis using a b by (simp add: r after_def p' s e)
qed

text \<open>
  A package that was received and stored is received again under the same id: the call
  succeeds, and the stored package is back in status received.
\<close>

theorem receivePackage_counterexample:
  "map_option status
     (packages (run ''Main Warehouse''
                  [(1000, Receive example_data), (2000, Store ''PKG001'' ''A1'')] empty_manager)
        ''PKG001'') = Some ''stored''
   \<and> \<not> isl (receivePackage ''Main Warehouse'' 3000 example_data
              (run ''Main Warehouse''
                 [(1000, Receive example_data), (2000, Store ''PKG001'' ''A1'')] empty_manager))
   \<and> map_option status
        (packages (after (run ''Main Warehouse''
                            [(1000, Receive example_data), (2000, Store ''PKG001'' ''A1'')] empty_manager)
                     (receivePackage ''Main Warehouse'' 3000 example_data
                        (run ''Main Warehouse''
                           [(1000, Receive example_data), (2000, Store ''PKG001'' ''A1'')] empty_manager)))
           ''PKG001'') = Some ''received''"
  by (simp add: engine_eval) (simp add: example_data_def)

section \<open>Engine: the event history\<close>

text \<open>
  C4 (amended). For every sequence of \<open>Receive\<close>, \<open>Store\<close>, \<open>Pick\<close> and \<open>Load\<close>
  operations, started on the empty store, in which every \<open>Store\<close> finds its package in
  status received or stored, the statuses in the event history of every package never
  decrease in the order received, stored, picked, loaded.
\<close>

theorem history_monotone_when_stores_in_order:
  assumes "stores_in_order wh ops empty_manager"
    and "packages (run wh ops empty_manager) k = Some pkg"
  shows "monotone_history pkg"
  using run_preserves_inv[OF manager_inv_empty assms(1)] assms(2)
  by (simp add: manager_inv_def package_inv_def)

theorem history_monotone_witness:
  "stores_in_order ''Main Warehouse''
     [(1000, Receive example_data), (2000, Store ''PKG001'' ''A1''), (3000, Pick ''PKG001''),
      (4000, Load ''PKG001'' ''VH001'')] empty_manager
   \<and> map_option (\<lambda>pkg. (map eventType (events pkg), monotone_history pkg))
       (packages
          (run ''Main Warehouse''
             [(1000, Receive example_data), (2000, Store ''PKG001'' ''A1''), (3000, Pick ''PKG001''),
              (4000, Load ''PKG001'' ''VH001'')] empty_manager) ''PKG001'')
     = Some ([''received'', ''stored'', ''picked'', ''loaded''], True)"
proof -
  let ?ops = "[(1000, Receive example_data), (2000, Store ''PKG001'' ''A1''), (3000, Pick ''PKG001''),
      (4000, Load ''PKG001'' ''VH001'')]"
  have a: "stores_in_order ''Main Warehouse'' ?ops empty_manager"
    by (simp add: engine_eval getPackage_def)
  have b: "map_option (\<lambda>pkg. map eventType (events pkg))
             (packages (run ''Main Warehouse'' ?ops empty_manager) ''PKG001'')
           = Some [''received'', ''stored'', ''picked'', ''loaded'']"
    by (simp add: engine_eval) (simp add: example_data_def)
  then obtain pkg where p: "packages (run ''Main Warehouse'' ?ops empty_manager) ''PKG001'' = Some pkg"
    by auto
  from history_monotone_when_stores_in_order[OF a p] b p a show ?thesis by auto
qed

text \<open>
  \<open>storePackage\<close> does not look at the current status: a \<open>Store\<close> after a \<open>Pick\<close> appends
  a stored event after the picked one.
\<close>

theorem history_monotone_counterexample:
  "map_option (\<lambda>pkg. (map eventType (events pkg), monotone_history pkg))
     (packages
        (run ''Main Warehouse''
           [(1000, Receive example_data), (2000, Store ''PKG001'' ''A1''), (3000, Pick ''PKG001''),
            (4000, Store ''PKG001'' ''B2'')] empty_manager) ''PKG001'')
   = Some ([''received'', ''stored'', ''picked'', ''stored''], False)"
  by (simp add: engine_eval monotone_history_def history_ranks_def rank_simps)
     (simp add: example_data_def)

section \<open>Engine: picking a package\<close>

text \<open>
  C5. For a package whose status is not stored, \<open>pickPackage\<close> rejects with the message
  ``Package (id) is not ready for pickup. Current status: (status). Expected: stored'',
  which names the current and the expected status; in particular it does so right after
  \<open>receivePackage\<close> (status received). For a package whose status is stored it resolves,
  and the package passes to status picked with one more event; no other package changes.
\<close>

theorem pickPackage_requires_stored:
  "(packages m k = Some pkg \<and> status pkg \<noteq> ''stored'' \<longrightarrow>
      pickPackage now k m =
        Inl (''Package '' @ k @ '' is not ready for pickup. Current status: ''
             @ status pkg @ ''. Expected: stored''))
   \<and> (truthy (pd_packageId d) \<and> truthy (pd_clientId d) \<longrightarrow>
      pickPackage now (the (pd_packageId d)) (after m (receivePackage wh now0 d m)) =
        Inl (''Package '' @ the (pd_packageId d)
             @ '' is not ready for pickup. Current status: received. Expected: stored''))
   \<and> (packages m k = Some pkg \<and> status pkg = ''stored'' \<longrightarrow>
      (\<exists>resp m'. pickPackage now k m = Inr (resp, m')
         \<and> packages m' k =
             Some (pkg\<lparr>status := ''picked'', updatedAt := now,
                       events := events pkg @
                         [\<lparr>eventType = ''picked'',
                           description = ''Package picked for order fulfillment'',
                           timestamp = now, eventLocation = location pkg\<rparr>]\<rparr>)
         \<and> (\<forall>k'. k' \<noteq> k \<longrightarrow> packages m' k' = packages m k')))"
proof (intro conjI impI)
  assume "packages m k = Some pkg \<and> status pkg \<noteq> ''stored''"
  then show "pickPackage now k m =
        Inl (''Package '' @ k @ '' is not ready for pickup. Current status: ''
             @ status pkg @ ''. Expected: stored'')"
    by (simp add: pickPackage_result)
next
  assume t: "truthy (pd_packageId d) \<and> truthy (pd_clientId d)"
  then have "receivePackage wh now0 d m =
     Inr (JObj [(''status'', JStr ''received''),
                (''packageId'', JStr (the (pd_packageId d))),
                (''warehouse'', JStr wh),
                (''receiptTime'', JNum (int now0)),
                (''nextStep'', JStr ''storage_assignment'')],
          m\<lparr>packages := (packages m)(the (pd_packageId d) \<mapsto>
                 new_Package now0 (the (pd_packageId d)) (the (pd_clientId d)) (pd_orderId d)
                   (case pd_items d of None \<Rightarrow> [] | Some xs \<Rightarrow> xs) (pd_deliveryAddress d)),
            emittedEvents := emittedEvents m @
              [(''package_received'',
                new_Package now0 (the (pd_packageId d)) (the (pd_clientId d)) (pd_orderId d)
                   (case pd_items d of None \<Rightarrow> [] | Some xs \<Rightarrow> xs) (pd_deliveryAddress d))]\<rparr>)"
    by (intro receivePackage_result) simp_all
  then show "pickPackage now (the (pd_packageId d)) (after m (receivePackage wh now0 d m)) =
        Inl (''Package '' @ the (pd_packageId d)
             @ '' is not ready for pickup. Current status: received. Expected: stored'')"
    by (simp add: after_def pickPackage_result new_Package_fields)
next
  assume "packages m k = Some pkg \<and> status pkg = ''stored''"
  then show "\<exists>resp m'. pickPackage now k m = Inr (resp, m')
         \<and> packages m' k =
             Some (pkg\<lparr>status := ''picked'', updatedAt := now,
                       events := events pkg @
                         [\<lparr>eventType = ''picked'',
                           description = ''Package picked for order fulfillment'',
                           timestamp = now, eventLocation = location pkg\<rparr>]\<rparr>)
         \<and> (\<forall>k'. k' \<noteq> k \<longrightarrow> packages m' k' = packages m k')"
    by (simp add: pickPackage_result)
qed

theorem pickPackage_requires_stored_witness:
  "pickPackage 2000 ''PKG001'' (run ''Main Warehouse'' [(1000, Receive example_data)] empty_manager) =
     Inl ''Package PKG001 is not ready for pickup. Current status: received. Expected: stored''
   \<and> pickPackage 2000 ''PKG001''
       (after empty_manager (receivePackage ''Main Warehouse'' 1000 example_data empty_manager)) =
     Inl ''Package PKG001 is not ready for pickup. Current status: received. Expected: stored''
   \<and> map_option status
       (packages
          (after (run ''Main Warehouse''
                    [(1000, Receive example_data), (2000, Store ''PKG001'' ''A1'')] empty_manager)
             (pickPackage 3000 ''PKG001''
                (run ''Main Warehouse''
                   [(1000, Receive example_data), (2000, Store ''PKG001'' ''A1'')] empty_manager)))
          ''PKG001'') = Some ''picked''"
proof -
  let ?m1 = "run ''Main Warehouse'' [(1000, Receive example_data)] empty_manager"
  let ?m2 = "run ''Main Warehouse''
               [(1000, Receive example_data), (2000, Store ''PKG001'' ''A1'')] empty_manager"
  let ?p1 = "new_Package 1000 ''PKG001'' ''C1'' (Some ''O1'') [''a'', ''b''] (Some ''Addr'')"
  have a: "packages ?m1 ''PKG001'' = Some ?p1 \<and> status ?p1 \<noteq> ''stored''"
    by (simp add: example_after_receive new_Package_fields)
  have A: "pickPackage 2000 ''PKG001'' ?m1 =
     Inl ''Package PKG001 is not ready for pickup. Current status: received. Expected: stored''"
    using pickPackage_requires_stored[THEN conjunct1, rule_format, OF a, of 2000]
    by (simp add: new_Package_fields)
  have b: "truthy (pd_packageId example_data) \<and> truthy (pd_clientId example_data)"
    by (simp add: example_truthy)
  have B: "pickPackage 2000 ''PKG001''
       (after empty_manager (receivePackage ''Main Warehouse'' 1000 example_data empty_manager)) =
     Inl ''Package PKG001 is not ready for pickup. Current status: received. Expected: stored''"
    using pickPackage_requires_stored[THEN conjunct2, THEN conjunct1, rule_format, OF b,
            of 2000 empty_manager "''Main Warehouse''" 1000]
    by (simp add: example_data_def)
  obtain p2 where c: "packages ?m2 ''PKG001'' = Some p2 \<and> status p2 = ''stored''"
    using example_after_store[of "''Main Warehouse''"] by auto
  from pickPackage_requires_stored[THEN conjunct2, THEN conjunct2, rule_format, OF c, of 3000]
  obtain resp m' where "pickPackage 3000 ''PKG001'' ?m2 = Inr (resp, m')"
    and "map_option status (packages m' ''PKG001'') = Some ''picked''"
    by auto
  then have C: "map_option status
       (packages (after ?m2 (pickPackage 3000 ''PKG001'' ?m2)) ''PKG001'') = Some ''picked''"
    by (simp add: after_def)
  from A B C show ?thesis by blast
qed

section \<open>Engine: loading a package\<close>

text \<open>
  C6. For an existing package, whatever its status, \<open>loadPackage\<close> resolves: it sets
  \<open>assignedVehicle\<close> to the vehicle id, sets the status to loaded and appends a loaded
  event; no other package changes. For an unknown package id it rejects with
  ``Package (id) not found''.
\<close>

theorem loadPackage_any_status:
  "(packages m k = Some pkg \<longrightarrow>
      (\<exists>resp m'. loadPackage now k v m = Inr (resp, m')
         \<and> packages m' k =
             Some (pkg\<lparr>assignedVehicle := Some v, status := ''loaded'', updatedAt := now,
                       events := events pkg @
                         [\<lparr>eventType = ''loaded'',
                           description = ''Package loaded onto vehicle '' @ v,
                           timestamp = now, eventLocation = location pkg\<rparr>]\<rparr>)
         \<and> (\<forall>k'. k' \<noteq> k \<longrightarrow> packages m' k' = packages m k')))
   \<and> (packages m k = None \<longrightarrow> loadPackage now k v m = Inl (''Package '' @ k @ '' not found''))"
  by (simp add: loadPackage_result)

theorem loadPackage_any_status_witness:
  "map_option status
     (packages (run ''Main Warehouse'' [(1000, Receive example_data)] empty_manager) ''PKG001'')
     = Some ''received''
   \<and> map_option (\<lambda>pkg. (status pkg, assignedVehicle pkg, map eventType (events pkg)))
       (packages
          (after (run ''Main Warehouse'' [(1000, Receive example_data)] empty_manager)
             (loadPackage 2000 ''PKG001'' ''VH001''
                (run ''Main Warehouse'' [(1000, Receive example_data)] empty_manager)))
          ''PKG001'') = Some (''loaded'', Some ''VH001'', [''received'', ''loaded''])
   \<and> loadPackage 2000 ''PKG002'' ''VH001''
       (run ''Main Warehouse'' [(1000, Receive example_data)] empty_manager) =
     Inl ''Package PKG002 not found''"
proof -
  let ?m1 = "run ''Main Warehouse'' [(1000, Receive example_data)] empty_manager"
  let ?p1 = "new_Package 1000 ''PKG001'' ''C1'' (Some ''O1'') [''a'', ''b''] (Some ''Addr'')"
  have a: "packages ?m1 ''PKG001'' = Some ?p1" by (rule example_after_receive)
  from loadPackage_any_status[THEN conjunct1, rule_format, OF a, of 2000 "''VH001''"]
  obtain resp m' where "loadPackage 2000 ''PKG001'' ''VH001'' ?m1 = Inr (resp, m')"
    and "packages m' ''PKG001'' =
           Some (?p1\<lparr>assignedVehicle := Some ''VH001'', status := ''loaded'', updatedAt := 2000,
                     events := events ?p1 @
                       [\<lparr>eventType = ''loaded'',
                         description = ''Package loaded onto vehicle '' @ ''VH001'',
                         timestamp = 2000, eventLocation = location ?p1\<rparr>]\<rparr>)"
    by auto
  then have A: "map_option (\<lambda>pkg. (status pkg, assignedVehicle pkg, map eventType (events pkg)))
       (packages (after ?m1 (loadPackage 2000 ''PKG001'' ''VH001'' ?m1)) ''PKG001'')
       = Some (''loaded'', Some ''VH001'', [''received'', ''loaded''])"
    by (simp add: after_def new_Package_fields)
  have b: "packages ?m1 ''PKG002'' = None"
    by (simp add: engine_eval) (simp add: example_data_def)
  have B: "loadPackage 2000 ''PKG002'' ''VH001'' ?m1 = Inl ''Package PKG002 not found''"
    using loadPackage_any_status[THEN conjunct2, rule_format, OF b, of 2000 "''VH001''"] by simp
  have C: "map_option status (packages ?m1 ''PKG001'') = Some ''received''"
    by (simp add: a new_Package_fields)
  from A B C show ?thesis by blast
qed

section \<open>Correlator: timeout and late response\<close>

text \<open>
  C9. A request is sent under a request id that is not pending and has no stored
  response. When \<open>checkResponse\<close> runs after the timeout has elapsed, it rejects with
  ``TCP response timeout'' and deletes the entry of the request: \<open>pendingRequests\<close> is what
  it was before the request. A status response with that request id that arrives
  afterwards leaves the adapter unchanged; in particular \<open>tcpResponses\<close> still has no
  entry for the id.
\<close>

theorem timeout_then_late_response:
  assumes fresh: "pendingRequests a0 requestId = None"
    and noresp: "tcpResponses a0 requestId = None"
    and id: "requestId \<noteq> []"
    and conn: "connected a0"
    and expired: "int now - int startTime > int timeout"
    and late: "payload_requestId (m_payload response) = Inr (Some (JStr requestId))"
  shows "sendTCPMessage sentAt request (Some requestId) a0 =
           Inr (a0\<lparr>pendingRequests := (pendingRequests a0)(requestId \<mapsto> sentAt),
                   sentTCP := sentTCP a0 @ [request]\<rparr>)
       \<and> checkResponse requestId timeout startTime now
           (a0\<lparr>pendingRequests := (pendingRequests a0)(requestId \<mapsto> sentAt),
               sentTCP := sentTCP a0 @ [request]\<rparr>) =
           (Rejected ''TCP response timeout'', a0\<lparr>sentTCP := sentTCP a0 @ [request]\<rparr>)
       \<and> pendingRequests (a0\<lparr>sentTCP := sentTCP a0 @ [request]\<rparr>) = pendingRequests a0
       \<and> handleStatusResponse response (a0\<lparr>sentTCP := sentTCP a0 @ [request]\<rparr>) =
           Inr (a0\<lparr>sentTCP := sentTCP a0 @ [request]\<rparr>)
       \<and> tcpResponses (a0\<lparr>sentTCP := sentTCP a0 @ [request]\<rparr>) requestId = None"
proof (intro conjI)
  show "sendTCPMessage sentAt request (Some requestId) a0 =
           Inr (a0\<lparr>pendingRequests := (pendingRequests a0)(requestId \<mapsto> sentAt),
                   sentTCP := sentTCP a0 @ [request]\<rparr>)"
    using id conn by (simp add: sendTCPMessage_def Let_def truthy_def)
  have "(pendingRequests a0)(requestId := None) = pendingRequests a0"
    using fresh by (simp add: fun_upd_idem)
  then show "checkResponse requestId timeout startTime now
           (a0\<lparr>pendingRequests := (pendingRequests a0)(requestId \<mapsto> sentAt),
               sentTCP := sentTCP a0 @ [request]\<rparr>) =
           (Rejected ''TCP response timeout'', a0\<lparr>sentTCP := sentTCP a0 @ [request]\<rparr>)"
    using noresp expired by (simp add: checkResponse_def)
  show "pendingRequests (a0\<lparr>sentTCP := sentTCP a0 @ [request]\<rparr>) = pendingRequests a0"
    by simp
  show "handleStatusResponse response (a0\<lparr>sentTCP := sentTCP a0 @ [request]\<rparr>) =
           Inr (a0\<lparr>sentTCP := sentTCP a0 @ [request]\<rparr>)"
    using fresh by (intro handleStatusResponse_not_pending[OF late]) simp
  show "tcpResponses (a0\<lparr>sentTCP := sentTCP a0 @ [request]\<rparr>) requestId = None"
    using noresp by simp
qed

theorem timeout_then_late_response_witness:
  "checkResponse ''status_1757450786892'' 5000 1757450786892 1757450791900
       (example_adapter\<lparr>pendingRequests := [''status_1757450786892'' \<mapsto> 1757450786892],
                        sentTCP := [''request'']\<rparr>) =
     (Rejected ''TCP response timeout'', example_adapter\<lparr>sentTCP := [''request'']\<rparr>)
   \<and> pendingRequests (example_adapter\<lparr>sentTCP := [''request'']\<rparr>) = Map.empty
   \<and> handleStatusResponse example_response (example_adapter\<lparr>sentTCP := [''request'']\<rparr>) =
       Inr (example_adapter\<lparr>sentTCP := [''request'']\<rparr>)"
proof -
  have f: "pendingRequests example_adapter ''status_1757450786892'' = None"
    and n: "tcpResponses example_adapter ''status_1757450786892'' = None"
    and i: "''status_1757450786892'' \<noteq> []"
    and c: "connected example_adapter"
    by (simp_all add: example_adapter_def)
  have e: "int 1757450791900 - int 1757450786892 > int 5000" by simp
  have l: "payload_requestId (m_payload example_response) = Inr (Some (JStr ''status_1757450786892''))"
    by (simp add: example_response_def payload_requestId_def)
  from timeout_then_late_response[OF f n i c e l, of 1757450786892 "''request''"]
  show ?thesis by (simp add: example_adapter_def)
qed

end
